theory Spec2Isabelle
  imports Main "HOL-Library.Word"
begin

section \<open>Values exchanged with the decoder library and the host\<close>

text \<open>
  A JavaScript error object as the code reads it: \<open>err.code\<close> (absent on most errors,
  a string such as \<open>ENOENT\<close> or \<open>EBUSY\<close> on file-system errors) and \<open>err.message\<close>.
\<close>

record js_error =
  code :: "string option"
  message :: string

record Dimensions =
  width :: int
  height :: int

text \<open>
  \<open>ISaveGame\<close> of the module \<open>gamebryo-savegame\<close>: what the decoder hands to its
  callback. The screenshot is a byte buffer. Fields whose names the record built from it
  also has carry the prefix \<open>sg_\<close>.
\<close>

record gamebryo_ISaveGame =
  saveNumber :: int
  characterName :: string
  characterLevel :: int
  sg_filename :: string
  sg_location :: string
  sg_plugins :: "string list"
  sg_screenshot :: "8 word list"
  screenshotSize :: Dimensions
  creationTime :: int
  playTime :: string

text \<open>
  \<open>ISavegame\<close>, the record \<open>loadSaveGame\<close> builds (refreshSavegames.ts, lines 64 to 82).
  Its field \<open>id\<close> is \<open>save_id\<close> here, and the fields of \<open>attributes\<close> carry the
  prefix \<open>a_\<close>. \<open>creationtime\<close> is a \<open>Date\<close>, kept as its milliseconds since the
  epoch.
\<close>

record ISavegameAttributes =
  a_id :: int
  a_name :: string
  a_level :: int
  a_filename :: string
  a_location :: string
  a_plugins :: "string list"
  a_screenshot :: Dimensions
  a_screenshotData :: "8 word list"
  a_isToggleable :: bool
  a_creationtime :: int

record ISavegame =
  save_id :: string
  filePath :: string
  attributes :: ISavegameAttributes

section \<open>The collaborators of the scan\<close>

text \<open>
  Node's \<open>path\<close> module is chosen by the platform at run time, so the functions the
  code calls are taken as a record: \<open>path.sep\<close>, \<open>path.extname\<close>,
  \<open>path.basename\<close> (with its optional suffix argument) and \<open>path.join\<close>.
\<close>

record path_module =
  path_sep :: string
  path_extname :: "string \<Rightarrow> string"
  path_basename :: "string \<Rightarrow> string option \<Rightarrow> string"
  path_join :: "string list \<Rightarrow> string"

text \<open>
  What one call of \<open>savegameLib.create(filePath, callback)\<close> does: it throws, or it calls
  back with an error, or it calls back with a decoded save. The library is taken to do one
  of the three, once, on every call.
\<close>

datatype create_result =
    Throws js_error
  | CallbackErr js_error
  | CallbackOk gamebryo_ISaveGame

text \<open>
  The outside world answers each call. The answers may change while a scan runs (the game
  writes and locks files), so each answer is a function of a logical clock that advances by
  one at every call that suspends the scan. \<open>openAsync\<close> returns the error of a failed
  open, \<open>None\<close> when the file opened.
\<close>

record env =
  path :: path_module
  readdirAsync :: "nat \<Rightarrow> string \<Rightarrow> js_error + string list"
  create :: "nat \<Rightarrow> string \<Rightarrow> create_result"
  openAsync :: "nat \<Rightarrow> string \<Rightarrow> js_error option"

text \<open>The calls a scan makes, in the order it makes them.\<close>

datatype event =
    Readdir string
  | Create string
  | Open string
  | Delayed nat
  | LogWarn string string string

text \<open>
  The state one scan threads through its steps: the clock, the calls so far, the local
  array \<open>failedReads\<close>, and the state \<open>cb\<close> that the callback \<open>onAddSavegame\<close>
  closes over.
\<close>

record 'a scan_state =
  clock :: nat
  events :: "event list"
  failedReads :: "string list"
  cb :: 'a

definition tick :: "event \<Rightarrow> 'a scan_state \<Rightarrow> 'a scan_state" where
  "tick ev st = st\<lparr>clock := Suc (clock st), events := events st @ [ev]\<rparr>"

section \<open>Strings\<close>

text \<open>
  \<open>String.prototype.toLowerCase\<close> on the ASCII letters. No character outside ASCII
  lower-cases to one of the letters of \<open>.ess\<close> or \<open>.fos\<close>, so the comparison the scan
  makes is decided by the ASCII letters alone.
\<close>

definition lower_char :: "char \<Rightarrow> char" where
  "lower_char c =
     (case map_of (zip ''ABCDEFGHIJKLMNOPQRSTUVWXYZ'' ''abcdefghijklmnopqrstuvwxyz'') c of
        None \<Rightarrow> c
      | Some l \<Rightarrow> l)"

definition toLowerCase :: "string \<Rightarrow> string" where
  "toLowerCase s = map lower_char s"

definition startsWith :: "string \<Rightarrow> string \<Rightarrow> bool" where
  "startsWith s p = (take (length p) s = p)"

section \<open>refreshSavegames.ts\<close>

definition timestampFormat :: "int \<Rightarrow> int" where
  "timestampFormat timestamp = timestamp * 1000"

definition mk_save :: "path_module \<Rightarrow> string \<Rightarrow> gamebryo_ISaveGame \<Rightarrow> ISavegame" where
  "mk_save p fp sg =
     \<lparr> save_id = path_basename p fp None,
       filePath = fp,
       attributes =
         \<lparr> a_id = saveNumber sg,
           a_name = characterName sg,
           a_level = characterLevel sg,
           a_filename = path_basename p fp None,
           a_location = sg_location sg,
           a_plugins = sg_plugins sg,
           a_screenshot =
             \<lparr> width = width (screenshotSize sg), height = height (screenshotSize sg) \<rparr>,
           a_screenshotData = sg_screenshot sg,
           a_isToggleable = True,
           a_creationtime = timestampFormat (creationTime sg) \<rparr> \<rparr>"

text \<open>
  \<open>loadSaveGame(filePath, onAddSavegame)\<close>: the promise resolves (\<open>None\<close>) or rejects
  with an error. The parameter \<open>tries\<close> of the source is never read and is left out.
  The callback receives the clock value of the call that produced the save.
\<close>

definition loadSaveGame ::
  "env \<Rightarrow> string \<Rightarrow> (nat \<Rightarrow> ISavegame \<Rightarrow> 'a \<Rightarrow> 'a) \<Rightarrow> 'a scan_state
     \<Rightarrow> js_error option \<times> 'a scan_state" where
  "loadSaveGame e fp onAddSavegame st =
     (let t = clock st; st1 = tick (Create fp) st in
      case create e t fp of
        CallbackErr err \<Rightarrow> (Some err, st1)
      | CallbackOk sg \<Rightarrow>
          (None, st1\<lparr>cb := onAddSavegame t (mk_save (path e) fp sg) (cb st1)\<rparr>)
      | Throws err \<Rightarrow>
          if startsWith (message err) ''failed to open''
          then (case openAsync e (clock st1) fp of
                  None \<Rightarrow> (Some err, tick (Open fp) st1)
                | Some fserr \<Rightarrow> (Some fserr, tick (Open fp) st1))
          else (Some err, st1))"

text \<open>
  The promise after the first \<open>.catch\<close> of the iteration (lines 37 to 41): decode,
  and when the rejection carries the code \<open>EBUSY\<close> wait 500 ms and decode once more.
\<close>

definition loadWithRetry ::
  "env \<Rightarrow> string \<Rightarrow> (nat \<Rightarrow> ISavegame \<Rightarrow> 'a \<Rightarrow> 'a) \<Rightarrow> string \<Rightarrow> 'a scan_state
     \<Rightarrow> js_error option \<times> 'a scan_state" where
  "loadWithRetry e savesPath onAddSavegame savegameName st =
     (let savegamePath = path_join (path e) [savesPath, savegameName];
          r1 = loadSaveGame e savegamePath onAddSavegame st
      in case fst r1 of
           None \<Rightarrow> r1
         | Some err \<Rightarrow>
             if code err = Some ''EBUSY''
             then loadSaveGame e savegamePath onAddSavegame (tick (Delayed 500) (snd r1))
             else r1)"

text \<open>
  The body of the \<open>Promise.each\<close> iteration (lines 35 to 46): the second
  \<open>.catch\<close> pushes whatever rejection is left onto \<open>failedReads\<close> and logs it.
  The iteration itself never rejects.
\<close>

definition scanEntry ::
  "env \<Rightarrow> string \<Rightarrow> (nat \<Rightarrow> ISavegame \<Rightarrow> 'a \<Rightarrow> 'a) \<Rightarrow> string \<Rightarrow> 'a scan_state
     \<Rightarrow> 'a scan_state" where
  "scanEntry e savesPath onAddSavegame savegameName st =
     (let savegamePath = path_join (path e) [savesPath, savegameName];
          r = loadWithRetry e savesPath onAddSavegame savegameName st
      in case fst r of
           None \<Rightarrow> snd r
         | Some err \<Rightarrow>
             (snd r)\<lparr>failedReads := failedReads (snd r) @ [savegameName @ '' - '' @ message err],
                      events := events (snd r) @
                        [LogWarn ''Failed to parse savegame'' savegamePath (message err)]\<rparr>)"

definition isSaveName :: "env \<Rightarrow> string \<Rightarrow> bool" where
  "isSaveName e savePath =
     (toLowerCase (path_extname (path e) savePath) \<in> set [''.ess'', ''.fos''])"

text \<open>
  The state of a scan once \<open>fs.readdirAsync\<close> has answered: \<open>failedReads\<close> is the
  empty array of line 27.
\<close>

definition scanStart :: "string \<Rightarrow> nat \<Rightarrow> 'a \<Rightarrow> 'a scan_state" where
  "scanStart savesPath t0 a0 =
     \<lparr>clock = Suc t0, events = [Readdir savesPath], failedReads = [], cb = a0\<rparr>"

text \<open>
  \<open>refreshSavegames(savesPath, onAddSavegame)\<close>, started at clock \<open>t0\<close> with the
  callback's state \<open>a0\<close>: the promise's outcome (\<open>Inl\<close> a rejection, \<open>Inr\<close> the
  failure list) and the final state of the scan.
\<close>

definition refreshSavegames ::
  "env \<Rightarrow> string \<Rightarrow> (nat \<Rightarrow> ISavegame \<Rightarrow> 'a \<Rightarrow> 'a) \<Rightarrow> nat \<Rightarrow> 'a
     \<Rightarrow> (js_error + string list) \<times> 'a scan_state" where
  "refreshSavegames e savesPath onAddSavegame t0 a0 =
     (let st0 = scanStart savesPath t0 a0;
          listing = (case readdirAsync e t0 savesPath of
                       Inl err \<Rightarrow> if code err = Some ''ENOENT'' then Inr [] else Inl err
                     | Inr entries \<Rightarrow> Inr entries)
      in case listing of
           Inl err \<Rightarrow> (Inl err, st0)
         | Inr entries \<Rightarrow>
             (let savegameNames = filter (isSaveName e) entries;
                  st = fold (scanEntry e savesPath onAddSavegame) savegameNames st0
              in (Inr (failedReads st), st)))"

section \<open>updateSaves (extension entry file)\<close>

text \<open>
  The callback \<open>updateSaves\<close> passes to the scan (lines 61 to 65): \<open>getSaves t\<close> is
  what \<open>store.getState().session.saves\<close> holds at clock \<open>t\<close>.
\<close>

definition onAddNew ::
  "(nat \<Rightarrow> string \<rightharpoonup> ISavegame) \<Rightarrow> nat \<Rightarrow> ISavegame \<Rightarrow> ISavegame list \<Rightarrow> ISavegame list" where
  "onAddNew getSaves t save newSavegames =
     (if getSaves t (save_id save) = None then newSavegames @ [save] else newSavegames)"

definition savesDict :: "ISavegame list \<Rightarrow> (string \<rightharpoonup> ISavegame)" where
  "savesDict newSavegames = fold (\<lambda>save d. d(save_id save \<mapsto> save)) newSavegames Map.empty"

record scan_outcome =
  newSavegames :: "ISavegame list"
  failed :: "string list"
  dispatched :: "string \<rightharpoonup> ISavegame"
  finished :: nat

text \<open>
  \<open>updateSaves(store, profileId, savesPath)\<close>: a rejection of the scan passes through;
  otherwise the new saves are dispatched as one \<open>setSavegames\<close> action and the promise
  resolves with the failure list. \<open>profileId\<close> is not read by the source.
\<close>

definition updateSaves ::
  "env \<Rightarrow> (nat \<Rightarrow> string \<rightharpoonup> ISavegame) \<Rightarrow> string \<Rightarrow> string \<Rightarrow> nat
     \<Rightarrow> js_error + scan_outcome" where
  "updateSaves e getSaves profileId savesPath t0 =
     (case refreshSavegames e savesPath (onAddNew getSaves) t0 [] of
        (Inl err, st) \<Rightarrow> Inl err
      | (Inr failedReads', st) \<Rightarrow>
          Inr \<lparr> newSavegames = cb st, failed = failedReads',
                dispatched = savesDict (cb st), finished = clock st \<rparr>)"

section \<open>gameSupport.ts\<close>

record IGameSupport =
  gs_mygamesPath :: string
  iniName :: string
  prefIniName :: "string option"
  gs_saveFiles :: "path_module \<Rightarrow> string \<Rightarrow> string list"

definition scriptExtenderFiles :: "path_module \<Rightarrow> string \<Rightarrow> string \<Rightarrow> string list" where
  "scriptExtenderFiles pm input seext =
     (let ext = path_extname pm input
      in [path_basename pm input (Some ext) @ ''.'' @ seext])"

text \<open>
  The table \<open>gameSupport\<close>, with its own keys in the order of the source. Each entry's
  \<open>saveFiles\<close> is \<open>[].concat([input], scriptExtenderFiles(input, seext))\<close>.
\<close>

definition gameSupport :: "(string \<times> IGameSupport) list" where
  "gameSupport =
     [(''skyrim'',
        \<lparr> gs_mygamesPath = ''skyrim'', iniName = ''Skyrim.ini'',
          prefIniName = Some ''SkyrimPrefs.ini'',
          gs_saveFiles = (\<lambda>pm input. [] @ [input] @ scriptExtenderFiles pm input ''skse'') \<rparr>),
      (''skyrimse'',
        \<lparr> gs_mygamesPath = ''Skyrim Special Edition'', iniName = ''Skyrim.ini'',
          prefIniName = Some ''SkyrimPrefs.ini'',
          gs_saveFiles = (\<lambda>pm input. [] @ [input] @ scriptExtenderFiles pm input ''skse'') \<rparr>),
      (''skyrimvr'',
        \<lparr> gs_mygamesPath = ''Skyrim VR'', iniName = ''Skyrim.ini'',
          prefIniName = Some ''SkyrimPrefs.ini'',
          gs_saveFiles = (\<lambda>pm input. [] @ [input] @ scriptExtenderFiles pm input ''skse'') \<rparr>),
      (''fallout3'',
        \<lparr> gs_mygamesPath = ''Fallout3'', iniName = ''Fallout.ini'',
          prefIniName = Some ''FalloutPrefs.ini'',
          gs_saveFiles = (\<lambda>pm input. [] @ [input] @ scriptExtenderFiles pm input ''fose'') \<rparr>),
      (''fallout4'',
        \<lparr> gs_mygamesPath = ''Fallout4'', iniName = ''Fallout4Custom.ini'',
          prefIniName = Some ''Fallout4Prefs.ini'',
          gs_saveFiles = (\<lambda>pm input. [] @ [input] @ scriptExtenderFiles pm input ''f4se'') \<rparr>),
      (''fallout4vr'',
        \<lparr> gs_mygamesPath = ''Fallout4VR'', iniName = ''Fallout4Custom.ini'',
          prefIniName = None,
          gs_saveFiles = (\<lambda>pm input. [] @ [input] @ scriptExtenderFiles pm input ''f4se'') \<rparr>),
      (''falloutnv'',
        \<lparr> gs_mygamesPath = ''FalloutNV'', iniName = ''Fallout.ini'',
          prefIniName = Some ''FalloutPrefs.ini'',
          gs_saveFiles = (\<lambda>pm input. [] @ [input] @ scriptExtenderFiles pm input ''nvse'') \<rparr>),
      (''oblivion'',
        \<lparr> gs_mygamesPath = ''Oblivion'', iniName = ''Oblivion.ini'',
          prefIniName = None,
          gs_saveFiles = (\<lambda>pm input. [] @ [input] @ scriptExtenderFiles pm input ''obse'') \<rparr>)]"

text \<open>
  \<open>gameSupport[gameMode]\<close> is resolved through the prototype chain: for a key of the
  table it is the entry, for a property name every object inherits from
  \<open>Object.prototype\<close> it is that inherited member (which has none of the fields of an
  entry), and for any other string it is \<open>undefined\<close>.
\<close>

definition objectPrototypeKeys :: "string list" where
  "objectPrototypeKeys =
     [''constructor'', ''hasOwnProperty'', ''isPrototypeOf'', ''propertyIsEnumerable'',
      ''toLocaleString'', ''toString'', ''valueOf'', ''__proto__'', ''__defineGetter__'',
      ''__defineSetter__'', ''__lookupGetter__'', ''__lookupSetter__'']"

datatype 'a property = Own 'a | Inherited | Undefined

definition gameSupportAt :: "string \<Rightarrow> IGameSupport property" where
  "gameSupportAt gameMode =
     (case map_of gameSupport gameMode of
        Some gs \<Rightarrow> Own gs
      | None \<Rightarrow> if gameMode \<in> set objectPrototypeKeys then Inherited else Undefined)"

definition gameSupported :: "string \<Rightarrow> bool" where
  "gameSupported gameMode = (gameSupportAt gameMode \<noteq> Undefined)"

text \<open>
  Reading a field of \<open>undefined\<close>, calling a member that is not a function and handing
  \<open>path.join\<close> an argument that is not a string all throw a \<open>TypeError\<close>.
\<close>

definition typeError :: js_error where
  "typeError = \<lparr> code = None, message = ''TypeError'' \<rparr>"

definition mygamesPath :: "path_module \<Rightarrow> string \<Rightarrow> string \<Rightarrow> js_error + string" where
  "mygamesPath pm documents gameMode =
     (case gameSupportAt gameMode of
        Own gs \<Rightarrow> Inr (path_join pm [documents, ''My Games'', gs_mygamesPath gs])
      | Inherited \<Rightarrow> Inl typeError
      | Undefined \<Rightarrow> Inl typeError)"

definition iniPath :: "path_module \<Rightarrow> string \<Rightarrow> string \<Rightarrow> js_error + string" where
  "iniPath pm documents gameMode =
     (case gameSupportAt gameMode of
        Own gs \<Rightarrow>
          (case mygamesPath pm documents gameMode of
             Inl err \<Rightarrow> Inl err
           | Inr dir \<Rightarrow> Inr (path_join pm [dir, iniName gs]))
      | Inherited \<Rightarrow> Inl typeError
      | Undefined \<Rightarrow> Inl typeError)"

definition prefIniPath :: "path_module \<Rightarrow> string \<Rightarrow> string \<Rightarrow> js_error + string option" where
  "prefIniPath pm documents gameMode =
     (case gameSupportAt gameMode of
        Own gs \<Rightarrow>
          (case prefIniName gs of
             None \<Rightarrow> Inr None
           | Some pref \<Rightarrow>
               (case mygamesPath pm documents gameMode of
                  Inl err \<Rightarrow> Inl err
                | Inr dir \<Rightarrow> Inr (Some (path_join pm [dir, pref]))))
      | Inherited \<Rightarrow> Inr None
      | Undefined \<Rightarrow> Inl typeError)"

definition saveFiles :: "path_module \<Rightarrow> string \<Rightarrow> string \<Rightarrow> js_error + string list" where
  "saveFiles pm gameMode savePath =
     (case gameSupportAt gameMode of
        Own gs \<Rightarrow> Inr (gs_saveFiles gs pm savePath)
      | Inherited \<Rightarrow> Inl typeError
      | Undefined \<Rightarrow> Inl typeError)"

section \<open>The change debouncer\<close>

text \<open>
  Modelled from the spec: \<open>util.Debouncer\<close> of the host API, whose source is not part
  of the extension. The spec's contract (section 4.3): a trigger with a fixed quiet period
  bound to an action; \<open>schedule()\<close> may be called arbitrarily often, a call while waiting
  resets the timer, and the bound action executes once the quiet period has elapsed with
  no further call. Time is in milliseconds. \<open>func\<close> is the bound action, \<open>deadline\<close>
  the pending timer, \<open>runs\<close> the times at which the bound action was executed.
  \<open>schedule\<close> sets the timer anew; \<open>elapse t\<close> is the timer coming due by time \<open>t\<close>.
\<close>

record 'f Debouncer =
  func :: 'f
  quiet :: nat
  deadline :: "nat option"
  runs :: "nat list"

definition newDebouncer :: "'f \<Rightarrow> nat \<Rightarrow> 'f Debouncer" where
  "newDebouncer f debounceMS = \<lparr> func = f, quiet = debounceMS, deadline = None, runs = [] \<rparr>"

definition schedule :: "nat \<Rightarrow> 'f Debouncer \<Rightarrow> 'f Debouncer" where
  "schedule t d = d\<lparr>deadline := Some (t + quiet d)\<rparr>"

definition elapse :: "nat \<Rightarrow> 'f Debouncer \<Rightarrow> 'f Debouncer" where
  "elapse t d =
     (case deadline d of
        None \<Rightarrow> d
      | Some due \<Rightarrow> if due \<le> t then d\<lparr>deadline := None, runs := runs d @ [due]\<rparr> else d)"

text \<open>
  From the source (lines 121 to 134). The action bound to the debouncer \<open>update\<close> is a
  closure over \<open>store\<close>, \<open>profileId\<close> and \<open>savesPath\<close>; it is kept as the two
  strings it captures (the store is the world's) and run by \<open>rescanAction\<close> below. The
  debouncer is built with 1000 ms, and the callback given to \<open>fs.watch\<close> reads neither
  the event type nor the file name.
\<close>

record rescan =
  r_profileId :: string
  r_savesPath :: string

definition update :: "string \<Rightarrow> string \<Rightarrow> rescan Debouncer" where
  "update profileId savesPath =
     newDebouncer \<lparr> r_profileId = profileId, r_savesPath = savesPath \<rparr> 1000"

definition onWatchEvent :: "string \<Rightarrow> string \<Rightarrow> nat \<Rightarrow> 'f Debouncer \<Rightarrow> 'f Debouncer" where
  "onWatchEvent evt filename t d = schedule t d"

section \<open>The extension entry file: settings, watch, profile change\<close>

record IProfile =
  gameId :: string
  local_saves :: "bool option"

type_synonym ini_data = "string \<rightharpoonup> (string \<rightharpoonup> string)"

datatype action =
    SetSavegamePath string
  | ClearSavegames
  | SetSavegames "string \<rightharpoonup> ISavegame"
  | ShowTransferDialog bool

text \<open>What the extension does to its surroundings, in order.\<close>

datatype effect =
    IniRead string
  | IniWrite string ini_data
  | Dispatch action
  | EnsureDir string
  | RefreshSavegames string
  | ShowErrorNotification string string
  | ShowErrorDetails string string string
  | WatchClose nat
  | Watch string
  | Unhandled js_error

text \<open>
  The host. The store's state type \<open>'s\<close> and its reducers are the host's:
  \<open>getProfile\<close> reads \<open>state.persistent.profiles[profileId]\<close>, \<open>lookupSave\<close> reads
  \<open>state.session.saves[id]\<close>, \<open>dispatch\<close> is the state after \<open>store.dispatch\<close>.
  \<open>parser_read\<close>, \<open>ensureDirAsync\<close> and \<open>watch\<close> answer by the clock as the
  file system of the scan does; \<open>watch\<close> gives the error \<open>fs.watch\<close> throws, if any.
\<close>

record 's host =
  fsenv :: env
  documents :: string
  getProfile :: "'s \<Rightarrow> string \<Rightarrow> IProfile option"
  lookupSave :: "'s \<Rightarrow> string \<Rightarrow> ISavegame option"
  dispatch :: "action \<Rightarrow> 's \<Rightarrow> 's"
  parser_read :: "nat \<Rightarrow> string \<Rightarrow> js_error + ini_data"
  ensureDirAsync :: "nat \<Rightarrow> string \<Rightarrow> js_error option"
  watch :: "nat \<Rightarrow> string \<Rightarrow> js_error option"

text \<open>
  The world the extension runs in: the store, the module variable \<open>fsWatcher\<close> (a
  watcher handle), the watches the file system holds open with their directories, the
  debouncer each watch's callback closes over (by the watch's handle), the next fresh
  handle, the clock and the effects so far.
\<close>

record 's world =
  store :: 's
  fsWatcher :: "nat option"
  live :: "(nat \<times> string) list"
  timers :: "nat \<rightharpoonup> rescan Debouncer"
  next_handle :: nat
  now :: nat
  effects :: "effect list"

definition do_dispatch :: "'s host \<Rightarrow> action \<Rightarrow> 's world \<Rightarrow> 's world" where
  "do_dispatch h a w =
     w\<lparr>store := dispatch h a (store w), effects := effects w @ [Dispatch a]\<rparr>"

definition processCanceled :: "string \<Rightarrow> js_error" where
  "processCanceled msg = \<lparr> code = None, message = msg \<rparr>"

text \<open>
  \<open>updateSaveSettings(store, profileId)\<close>: a rejection, or the directory to scan
  (\<open>None\<close> for \<open>undefined\<close>, when the game is not supported). \<open>parser.write\<close> is not
  awaited by the source.
\<close>

definition updateSaveSettings ::
  "'s host \<Rightarrow> string \<Rightarrow> 's world \<Rightarrow> (js_error + string option) \<times> 's world" where
  "updateSaveSettings h profileId w =
     (case getProfile h (store w) profileId of
        None \<Rightarrow> (Inl (processCanceled ''no current profile''), w)
      | Some profile \<Rightarrow>
          (case iniPath (path (fsenv h)) (documents h) (gameId profile) of
             Inl err \<Rightarrow> (Inl err, w)
           | Inr ini \<Rightarrow>
               (let w1 = w\<lparr>now := Suc (now w), effects := effects w @ [IniRead ini]\<rparr> in
                case parser_read h (now w) ini of
                  Inl err \<Rightarrow> (Inl err, w1)
                | Inr data \<Rightarrow>
                    (let pm = path (fsenv h);
                         localPath = path_join pm [''Saves'', profileId];
                         general = (case data ''General'' of None \<Rightarrow> Map.empty | Some g \<Rightarrow> g);
                         sLocalSavePath =
                           (if local_saves profile = Some True
                            then localPath @ path_sep pm
                            else ''Saves'' @ path_sep pm);
                         data' = data(''General'' \<mapsto> general(''SLocalSavePath'' \<mapsto> sLocalSavePath));
                         w2 = w1\<lparr>effects := effects w1 @ [IniWrite ini data']\<rparr>;
                         w3 = do_dispatch h (SetSavegamePath sLocalSavePath) w2;
                         w4 = do_dispatch h ClearSavegames w3
                     in if \<not> gameSupported (gameId profile) then (Inr None, w4)
                        else
                          (case mygamesPath pm (documents h) (gameId profile) of
                             Inl err \<Rightarrow> (Inl err, w4)
                           | Inr dir \<Rightarrow>
                               (let readPath = dir @ path_sep pm @ sLocalSavePath;
                                    w5 = w4\<lparr>now := Suc (now w4),
                                            effects := effects w4 @ [EnsureDir readPath]\<rparr>
                                in case ensureDirAsync h (now w4) readPath of
                                     Some err \<Rightarrow> (Inl err, w5)
                                   | None \<Rightarrow> (Inr (Some readPath), w5)))))))"

text \<open>
  \<open>updateSaves\<close> run in the world: the scan reads the store as it is, and on success
  the new saves are dispatched.
\<close>

definition updateSavesIn ::
  "'s host \<Rightarrow> string \<Rightarrow> string \<Rightarrow> 's world \<Rightarrow> (js_error + string list) \<times> 's world" where
  "updateSavesIn h profileId savesPath w =
     (let w1 = w\<lparr>effects := effects w @ [RefreshSavegames savesPath]\<rparr> in
      case updateSaves (fsenv h) (\<lambda>t. lookupSave h (store w)) profileId savesPath (now w) of
        Inl err \<Rightarrow> (Inl err, w1\<lparr>now := Suc (now w)\<rparr>)
      | Inr r \<Rightarrow>
          (Inr (failed r), do_dispatch h (SetSavegames (dispatched r)) (w1\<lparr>now := finished r\<rparr>)))"

text \<open>
  The last step of the handler (lines 118 to 139): close the watcher the module variable
  holds, build the debouncer, and watch the directory; when \<open>fs.watch\<close> throws, the
  module variable keeps the closed watcher and the user is told.
\<close>

definition closeWatcher :: "'s world \<Rightarrow> 's world" where
  "closeWatcher w =
     (case fsWatcher w of
        None \<Rightarrow> w
      | Some k \<Rightarrow> w\<lparr>live := filter (\<lambda>wd. fst wd \<noteq> k) (live w),
                      effects := effects w @ [WatchClose k]\<rparr>)"

definition attachWatch :: "'s host \<Rightarrow> string \<Rightarrow> string \<Rightarrow> 's world \<Rightarrow> 's world" where
  "attachWatch h profileId savesPath w =
     (let w1 = closeWatcher w in
      case watch h (now w1) savesPath of
        None \<Rightarrow>
          (let k = next_handle w1 in
           w1\<lparr>fsWatcher := Some k,
              live := live w1 @ [(k, savesPath)],
              timers := (timers w1)(k \<mapsto> update profileId savesPath),
              next_handle := Suc k,
              effects := effects w1 @ [Watch savesPath]\<rparr>)
      | Some err \<Rightarrow>
          w1\<lparr>effects := effects w1 @
               [ShowErrorDetails ''Can't watch saves directory for changes'' savesPath
                  (message err)]\<rparr>)"

text \<open>
  A change in directory \<open>dir\<close> reported by the file system at time \<open>t\<close>: the
  callback of every open watch on that directory runs.
\<close>

definition fsChange :: "string \<Rightarrow> string \<Rightarrow> string \<Rightarrow> nat \<Rightarrow> 's world \<Rightarrow> 's world" where
  "fsChange dir evt filename t w =
     w\<lparr>timers := (\<lambda>k. if (k, dir) \<in> set (live w)
                        then map_option (onWatchEvent evt filename t) (timers w k)
                        else timers w k)\<rparr>"

definition joinLines :: "string list \<Rightarrow> string" where
  "joinLines xs = (case xs of [] \<Rightarrow> [] | x # ys \<Rightarrow> foldl (\<lambda>acc y. acc @ [CHR 0x0A] @ y) x ys)"

text \<open>
  The handler of \<open>profile-did-change\<close> (lines 99 to 141). The promise chain has no
  \<open>catch\<close>, so a rejection ends the run as an unhandled rejection.
\<close>

definition unhandled :: "js_error \<Rightarrow> 's world \<Rightarrow> 's world" where
  "unhandled err w = w\<lparr>effects := effects w @ [Unhandled err]\<rparr>"

definition onProfileDidChange :: "'s host \<Rightarrow> string \<Rightarrow> 's world \<Rightarrow> 's world" where
  "onProfileDidChange h profileId w =
     (case getProfile h (store w) profileId of
        None \<Rightarrow> w
      | Some profile \<Rightarrow>
          if \<not> gameSupported (gameId profile) then w
          else
            (case updateSaveSettings h profileId w of
               (Inl err, w1) \<Rightarrow> unhandled err w1
             | (Inr None, w1) \<Rightarrow> unhandled typeError w1
             | (Inr (Some savesPath), w1) \<Rightarrow>
                 (case updateSavesIn h profileId savesPath w1 of
                    (Inl err, w2) \<Rightarrow> unhandled err w2
                  | (Inr failedReads', w2) \<Rightarrow>
                      attachWatch h profileId savesPath
                        (if failedReads' \<noteq> []
                         then w2\<lparr>effects := effects w2 @
                                [ShowErrorNotification ''Some saves couldn't be read''
                                   (joinLines failedReads')]\<rparr>
                         else w2))))"

text \<open>
  The action bound to a debouncer (lines 121 to 129): \<open>updateSaves\<close> for the captured
  profile and directory, then a notification when some saves could not be read. A
  rejection of \<open>updateSaves\<close> is returned to the debouncer; the closure handles none.
\<close>

definition rescanAction :: "'s host \<Rightarrow> rescan \<Rightarrow> 's world \<Rightarrow> 's world" where
  "rescanAction h a w =
     (case updateSavesIn h (r_profileId a) (r_savesPath a) w of
        (Inl err, w1) \<Rightarrow> w1
      | (Inr failedReadsInner, w1) \<Rightarrow>
          if failedReadsInner \<noteq> []
          then w1\<lparr>effects := effects w1 @
                 [ShowErrorNotification ''Some saves couldn't be read''
                    (joinLines failedReadsInner)]\<rparr>
          else w1)"

text \<open>
  Modelled from the spec: the debouncer executing its bound action (section 4.3). At time
  \<open>t\<close> the timer of the debouncer of watch \<open>k\<close>, when it is due, is cleared and the
  bound action runs in the world.
\<close>

definition timerFires :: "'s host \<Rightarrow> nat \<Rightarrow> nat \<Rightarrow> 's world \<Rightarrow> 's world" where
  "timerFires h k t w =
     (case timers w k of
        None \<Rightarrow> w
      | Some d \<Rightarrow>
          (case deadline d of
             None \<Rightarrow> w
           | Some due \<Rightarrow>
               if due \<le> t
               then rescanAction h (func d) (w\<lparr>timers := (timers w)(k \<mapsto> elapse t d)\<rparr>)
               else w))"

section \<open>A reference instance of the path module\<close>

text \<open>
  The documented behaviour of Node's \<open>path.posix\<close> on the functions above, used to
  run the definitions on concrete directories. \<open>normalizeString\<close> drops empty and
  \<open>.\<close> segments and resolves \<open>..\<close>; \<open>extname\<close> is the part of the last
  component from its last dot, empty when that dot is the component's first character or
  the component is \<open>..\<close>; \<open>basename\<close> is the last component, less the suffix
  when the suffix is a proper ending of it.
\<close>

fun split_slash :: "string \<Rightarrow> string \<Rightarrow> string list" where
  "split_slash acc [] = [rev acc]"
| "split_slash acc (c # cs) =
     (if c = CHR ''/'' then rev acc # split_slash [] cs else split_slash (c # acc) cs)"

fun normalizeString :: "bool \<Rightarrow> string list \<Rightarrow> string list \<Rightarrow> string list" where
  "normalizeString allowAboveRoot res [] = rev res"
| "normalizeString allowAboveRoot res (seg # segs) =
     (if seg = [] \<or> seg = ''.'' then normalizeString allowAboveRoot res segs
      else if seg = ''..'' then
        (case res of
           [] \<Rightarrow> normalizeString allowAboveRoot (if allowAboveRoot then [''..''] else []) segs
         | r # rs \<Rightarrow>
             if r = ''..'' then normalizeString allowAboveRoot (''..'' # res) segs
             else normalizeString allowAboveRoot rs segs)
      else normalizeString allowAboveRoot (seg # res) segs)"

fun intercalate :: "string \<Rightarrow> string list \<Rightarrow> string" where
  "intercalate s [] = []"
| "intercalate s [x] = x"
| "intercalate s (x # y # ys) = x @ s @ intercalate s (y # ys)"

definition posix_normalize :: "string \<Rightarrow> string" where
  "posix_normalize p =
     (if p = [] then ''.''
      else
        (let isAbsolute = (hd p = CHR ''/'');
             trailingSeparator = (last p = CHR ''/'');
             q = intercalate ''/'' (normalizeString (\<not> isAbsolute) [] (split_slash [] p))
         in if q = []
            then (if isAbsolute then ''/'' else if trailingSeparator then ''./'' else ''.'')
            else (if isAbsolute then ''/'' else []) @ q @
                 (if trailingSeparator then ''/'' else [])))"

definition posix_join :: "string list \<Rightarrow> string" where
  "posix_join args =
     (let joined = intercalate ''/'' (filter (\<lambda>a. a \<noteq> []) args)
      in if joined = [] then ''.'' else posix_normalize joined)"

definition last_component :: "string \<Rightarrow> string" where
  "last_component p =
     rev (takeWhile (\<lambda>c. c \<noteq> CHR ''/'') (dropWhile (\<lambda>c. c = CHR ''/'') (rev p)))"

definition posix_extname :: "string \<Rightarrow> string" where
  "posix_extname p =
     (let comp = last_component p;
          ext = CHR ''.'' # rev (takeWhile (\<lambda>c. c \<noteq> CHR ''.'') (rev comp))
      in if CHR ''.'' \<notin> set comp \<or> length ext = length comp \<or> comp = ''..''
         then [] else ext)"

definition posix_basename :: "string \<Rightarrow> string option \<Rightarrow> string" where
  "posix_basename p suffix =
     (let base = last_component p in
      case suffix of
        None \<Rightarrow> base
      | Some ext \<Rightarrow>
          if ext \<noteq> [] \<and> length ext < length base \<and>
             drop (length base - length ext) base = ext
          then take (length base - length ext) base
          else base)"

definition posix :: path_module where
  "posix = \<lparr> path_sep = ''/'', path_extname = posix_extname,
              path_basename = posix_basename, path_join = posix_join \<rparr>"

section \<open>Sample directories\<close>

definition sample_sg :: gamebryo_ISaveGame where
  "sample_sg =
     \<lparr> saveNumber = 7, characterName = ''Lydia'', characterLevel = 12,
       sg_filename = ''save1.ess'', sg_location = ''Whiterun'', sg_plugins = [''Skyrim.esm''],
       sg_screenshot = [0, 255], screenshotSize = \<lparr> width = 2, height = 1 \<rparr>,
       creationTime = 1500000000, playTime = ''001.02.03'' \<rparr>"

definition busy :: js_error where
  "busy = \<lparr> code = Some ''EBUSY'', message = ''EBUSY: resource busy or locked'' \<rparr>"

definition enoent :: js_error where
  "enoent = \<lparr> code = Some ''ENOENT'', message = ''ENOENT: no such file or directory'' \<rparr>"

definition eacces :: js_error where
  "eacces = \<lparr> code = Some ''EACCES'', message = ''EACCES: permission denied'' \<rparr>"

definition invalid :: js_error where
  "invalid = \<lparr> code = None, message = ''wrong file format'' \<rparr>"

text \<open>
  A directory \<open>/saves\<close> whose answers do not change: one good save, a text file, one
  save in the wrong format, one good save with an upper-case extension, one locked save.
  \<open>/docs\<close> holds no save, \<open>/private\<close> cannot be listed; no other directory
  exists.
\<close>

definition steady_env :: env where
  "steady_env =
     \<lparr> path = posix,
       readdirAsync = (\<lambda>t p.
          if p = ''/saves''
          then Inr [''save1.ess'', ''notes.txt'', ''save2.ess'', ''Quick.FOS'', ''locked.ess'']
          else if p = ''/docs'' then Inr [''notes.txt'', ''readme.md'', ''ess'', ''.ess'']
          else if p = ''/private'' then Inl eacces else Inl enoent),
       create = (\<lambda>t p.
          if p = ''/saves/save1.ess'' \<or> p = ''/saves/Quick.FOS'' then CallbackOk sample_sg
          else if p = ''/saves/save2.ess'' then CallbackErr invalid
          else if p = ''/saves/locked.ess'' then CallbackErr busy
          else Throws \<lparr> code = None, message = ''failed to open file'' \<rparr>),
       openAsync = (\<lambda>t p. Some enoent) \<rparr>"

text \<open>
  A directory whose answers change while it is scanned: \<open>autosave.ess\<close> cannot be
  opened before clock 4 (the library throws, the probe of \<open>fs.openAsync\<close> reports the
  lock) and decodes from then on; \<open>locked.ess\<close> stays locked.
\<close>

definition busy_env :: env where
  "busy_env =
     \<lparr> path = posix,
       readdirAsync = (\<lambda>t p. if p = ''/saves'' then Inr [''autosave.ess'', ''locked.ess'']
                              else Inl enoent),
       create = (\<lambda>t p.
          if p = ''/saves/autosave.ess''
          then (if t < 4 then Throws \<lparr> code = None, message = ''failed to open file'' \<rparr>
                else CallbackOk sample_sg)
          else CallbackErr busy),
       openAsync = (\<lambda>t p. Some busy) \<rparr>"

text \<open>
  A sample host over the sample directories, with a small store of its own: one profile,
  the known saves and the current save path. Its reducer sets the path, clears the saves
  and adds a batch of saves.
\<close>

record sample_state =
  s_profiles :: "string \<rightharpoonup> IProfile"
  s_saves :: "string \<rightharpoonup> ISavegame"
  s_savegamePath :: string

definition sample_reducer :: "action \<Rightarrow> sample_state \<Rightarrow> sample_state" where
  "sample_reducer a s =
     (case a of
        SetSavegamePath p \<Rightarrow> s\<lparr>s_savegamePath := p\<rparr>
      | ClearSavegames \<Rightarrow> s\<lparr>s_saves := Map.empty\<rparr>
      | SetSavegames d \<Rightarrow> s\<lparr>s_saves := s_saves s ++ d\<rparr>
      | ShowTransferDialog b \<Rightarrow> s)"

definition sample_host :: "sample_state host" where
  "sample_host =
     \<lparr> fsenv = steady_env, documents = ''/home/user/Documents'',
       getProfile = s_profiles, lookupSave = s_saves, dispatch = sample_reducer,
       parser_read = (\<lambda>t p. Inr Map.empty),
       ensureDirAsync = (\<lambda>t p. None),
       watch = (\<lambda>t p. if p = ''/private'' then Some eacces else None) \<rparr>"

definition sample_world :: "sample_state world" where
  "sample_world =
     \<lparr> store = \<lparr> s_profiles = [''p1'' \<mapsto> \<lparr> gameId = ''skyrim'', local_saves = Some True \<rparr>],
                 s_saves = Map.empty, s_savegamePath = [] \<rparr>,
       fsWatcher = None, live = [], timers = Map.empty, next_handle = 0, now = 0,
       effects = [] \<rparr>"

section \<open>Observations on a scan\<close>

text \<open>The probe \<open>fs.openAsync\<close> that one decode at clock \<open>t\<close> makes, if any.\<close>

definition probes :: "env \<Rightarrow> nat \<Rightarrow> string \<Rightarrow> event list" where
  "probes e t fp =
     (case create e t fp of
        Throws err \<Rightarrow> if startsWith (message err) ''failed to open'' then [Open fp] else []
      | _ \<Rightarrow> [])"

text \<open>The decode calls and the waits among the events.\<close>

fun isAttempt :: "event \<Rightarrow> bool" where
  "isAttempt (Create p) = True"
| "isAttempt (Delayed ms) = True"
| "isAttempt _ = False"

fun created :: "event \<Rightarrow> string list" where
  "created (Create p) = [p]"
| "created _ = []"

text \<open>The paths handed to the decoder, in order.\<close>

definition decodeCalls :: "'a scan_state \<Rightarrow> string list" where
  "decodeCalls st = concat (map created (events st))"

definition decodes :: "'a scan_state \<Rightarrow> string set" where
  "decodes st = {p. Create p \<in> set (events st)}"

text \<open>
  A directory is unchanged when its listing and the decoder's answers do not depend on
  the time of the call. \<open>decoded\<close> lists the records such a directory yields.
\<close>

definition unchanged :: "env \<Rightarrow> string \<Rightarrow> bool" where
  "unchanged e savesPath \<longleftrightarrow>
     (\<forall>t. readdirAsync e t savesPath = readdirAsync e 0 savesPath) \<and>
     (\<forall>t p. create e t p = create e 0 p)"

definition decoded :: "env \<Rightarrow> string \<Rightarrow> string list \<Rightarrow> ISavegame list" where
  "decoded e savesPath ns =
     concat (map (\<lambda>n. case create e 0 (path_join (path e) [savesPath, n]) of
                         CallbackOk sg \<Rightarrow> [mk_save (path e) (path_join (path e) [savesPath, n]) sg]
                       | _ \<Rightarrow> []) ns)"

section \<open>Watches over time\<close>

text \<open>
  The worlds the extension can be in. It starts with no watcher. Handlers of
  \<open>profile-did-change\<close> run, and because their steps are asynchronous the last step of
  one (\<open>attachWatch\<close>) may come after steps of another; file-system changes arrive;
  timers of debouncers come due; and anything else that happens (\<open>other\<close>) leaves
  the watcher variable, the open watches and the handle counter alone.
\<close>

inductive reachable :: "'s world \<Rightarrow> bool" where
  start: "fsWatcher w = None \<Longrightarrow> live w = [] \<Longrightarrow> reachable w"
| profile: "reachable w \<Longrightarrow> reachable (onProfileDidChange h profileId w)"
| attach: "reachable w \<Longrightarrow> reachable (attachWatch h profileId savesPath w)"
| change: "reachable w \<Longrightarrow> reachable (fsChange dir evt filename t w)"
| timer: "reachable w \<Longrightarrow> reachable (timerFires h k t w)"
| other: "reachable w \<Longrightarrow> fsWatcher w' = fsWatcher w \<Longrightarrow> live w' = live w \<Longrightarrow>
          next_handle w' = next_handle w \<Longrightarrow> reachable w'"

text \<open>
  Every open watch is the one the module variable holds, and no handle is open twice.
\<close>

definition watch_inv :: "'s world \<Rightarrow> bool" where
  "watch_inv w \<longleftrightarrow>
     (\<forall>k d. (k, d) \<in> set (live w) \<longrightarrow> fsWatcher w = Some k \<and> k < next_handle w) \<and>
     distinct (map fst (live w))"

definition same_watches :: "'s world \<Rightarrow> 's world \<Rightarrow> bool" where
  "same_watches w w' \<longleftrightarrow>
     fsWatcher w' = fsWatcher w \<and> live w' = live w \<and> next_handle w' = next_handle w"

section \<open>Bursts of events\<close>




section \<open>One decode\<close>

lemma isAttempt_probes: "filter isAttempt (probes e t fp) = []"
  by (simp add: probes_def split: create_result.splits)

lemma Create_probes: "Create q \<notin> set (probes e t fp)"
  by (simp add: probes_def split: create_result.splits)

lemma fst_loadSaveGame_None:
  "fst (loadSaveGame e fp f st) = None \<longleftrightarrow> (\<exists>sg. create e (clock st) fp = CallbackOk sg)"
  by (simp add: loadSaveGame_def Let_def split: create_result.splits option.splits)

lemma failedReads_loadSaveGame:
  "failedReads (snd (loadSaveGame e fp f st)) = failedReads st"
  by (simp add: loadSaveGame_def Let_def tick_def split: create_result.splits option.splits)

lemma events_loadSaveGame:
  "events (snd (loadSaveGame e fp f st)) = events st @ Create fp # probes e (clock st) fp"
  by (simp add: loadSaveGame_def Let_def tick_def probes_def split: create_result.splits option.splits)

lemma clock_loadSaveGame:
  "clock (snd (loadSaveGame e fp f st)) = Suc (clock st) + length (probes e (clock st) fp)"
  by (simp add: loadSaveGame_def Let_def tick_def probes_def split: create_result.splits option.splits)

lemma cb_loadSaveGame:
  "cb (snd (loadSaveGame e fp f st)) =
     (case create e (clock st) fp of
        CallbackOk sg \<Rightarrow> f (clock st) (mk_save (path e) fp sg) (cb st)
      | _ \<Rightarrow> cb st)"
  by (simp add: loadSaveGame_def Let_def tick_def split: create_result.splits option.splits)

lemma cb_loadSaveGame_failed:
  "fst (loadSaveGame e fp f st) = Some err \<Longrightarrow> cb (snd (loadSaveGame e fp f st)) = cb st"
  by (auto simp add: loadSaveGame_def Let_def tick_def split: create_result.splits option.splits if_splits)

section \<open>The retry\<close>

lemma loadWithRetry_first_ok:
  "fst (loadSaveGame e (path_join (path e) [sp, n]) f st) = None \<Longrightarrow>
   loadWithRetry e sp f n st = loadSaveGame e (path_join (path e) [sp, n]) f st"
  by (simp add: loadWithRetry_def Let_def)

lemma loadWithRetry_not_busy:
  "fst (loadSaveGame e (path_join (path e) [sp, n]) f st) = Some err \<Longrightarrow>
   code err \<noteq> Some ''EBUSY'' \<Longrightarrow>
   loadWithRetry e sp f n st = loadSaveGame e (path_join (path e) [sp, n]) f st"
  by (simp add: loadWithRetry_def Let_def)

lemma loadWithRetry_busy:
  "fst (loadSaveGame e (path_join (path e) [sp, n]) f st) = Some err \<Longrightarrow>
   code err = Some ''EBUSY'' \<Longrightarrow>
   loadWithRetry e sp f n st =
     loadSaveGame e (path_join (path e) [sp, n]) f
       (tick (Delayed 500) (snd (loadSaveGame e (path_join (path e) [sp, n]) f st)))"
  by (simp add: loadWithRetry_def Let_def)

lemma loadWithRetry_cases:
  obtains
    (first) "loadWithRetry e sp f n st = loadSaveGame e (path_join (path e) [sp, n]) f st"
  | (retry) err where
      "fst (loadSaveGame e (path_join (path e) [sp, n]) f st) = Some err"
      "code err = Some ''EBUSY''"
      "loadWithRetry e sp f n st =
         loadSaveGame e (path_join (path e) [sp, n]) f
           (tick (Delayed 500) (snd (loadSaveGame e (path_join (path e) [sp, n]) f st)))"
proof (cases "fst (loadSaveGame e (path_join (path e) [sp, n]) f st)")
  case None
  then show ?thesis using first loadWithRetry_first_ok by blast
next
  case (Some err)
  then show ?thesis
    using first retry loadWithRetry_not_busy loadWithRetry_busy by (cases "code err = Some ''EBUSY''") blast+
qed

lemma failedReads_loadWithRetry:
  "failedReads (snd (loadWithRetry e sp f n st)) = failedReads st"
  by (cases rule: loadWithRetry_cases [of e sp f n st])
     (simp_all add: failedReads_loadSaveGame tick_def)

lemma events_loadWithRetry:
  "\<exists>evs. events (snd (loadWithRetry e sp f n st)) =
           events st @ Create (path_join (path e) [sp, n]) # evs \<and>
         (\<forall>q. Create q \<in> set evs \<longrightarrow> q = path_join (path e) [sp, n])"
  by (cases rule: loadWithRetry_cases [of e sp f n st])
     (auto simp add: events_loadSaveGame Create_probes tick_def)

section \<open>One iteration and the loop\<close>

lemma events_scanEntry:
  "\<exists>evs. events (scanEntry e sp f n st) =
           events st @ Create (path_join (path e) [sp, n]) # evs \<and>
         (\<forall>q. Create q \<in> set evs \<longrightarrow> q = path_join (path e) [sp, n])"
proof -
  obtain evs where e1: "events (snd (loadWithRetry e sp f n st)) =
           events st @ Create (path_join (path e) [sp, n]) # evs"
     and e2: "\<forall>q. Create q \<in> set evs \<longrightarrow> q = path_join (path e) [sp, n]"
    using events_loadWithRetry by blast
  show ?thesis
  proof (cases "fst (loadWithRetry e sp f n st)")
    case None
    with e1 e2 show ?thesis by (simp add: scanEntry_def Let_def)
  next
    case (Some err)
    with e1 e2 show ?thesis by (simp add: scanEntry_def Let_def)
  qed
qed

lemma decodes_scanEntry:
  "decodes (scanEntry e sp f n st) = insert (path_join (path e) [sp, n]) (decodes st)"
  using events_scanEntry [of e sp f n st] by (auto simp: decodes_def)

lemma decodes_fold:
  "decodes (fold (scanEntry e sp f) ns st) = decodes st \<union> (\<lambda>n. path_join (path e) [sp, n]) ` set ns"
  by (induction ns arbitrary: st) (auto simp: decodes_scanEntry)

lemma set_decodeCalls: "set (decodeCalls st) = decodes st"
proof -
  have "\<And>ev p. p \<in> set (created ev) \<longleftrightarrow> ev = Create p"
    by (case_tac ev) auto
  then show ?thesis by (auto simp: decodeCalls_def decodes_def)
qed

lemma failedReads_scanEntry_ok:
  "fst (loadWithRetry e sp f n st) = None \<Longrightarrow> failedReads (scanEntry e sp f n st) = failedReads st"
  by (simp add: scanEntry_def Let_def failedReads_loadWithRetry)

lemma failedReads_scanEntry_failed:
  "fst (loadWithRetry e sp f n st) = Some err \<Longrightarrow>
   failedReads (scanEntry e sp f n st) = failedReads st @ [n @ '' - '' @ message err]"
  by (simp add: scanEntry_def Let_def failedReads_loadWithRetry)

lemma cb_scanEntry: "cb (scanEntry e sp f n st) = cb (snd (loadWithRetry e sp f n st))"
  by (simp add: scanEntry_def Let_def split: option.splits)

lemma failedReads_scanEntry_grows:
  "\<exists>xs. failedReads (scanEntry e sp f n st) = failedReads st @ xs \<and> length xs \<le> 1"
  by (cases "fst (loadWithRetry e sp f n st)")
     (simp_all add: failedReads_scanEntry_ok failedReads_scanEntry_failed)

lemma failedReads_fold_grows:
  "\<exists>xs. failedReads (fold (scanEntry e sp f) ns st) = failedReads st @ xs \<and> length xs \<le> length ns"
proof (induction ns arbitrary: st)
  case Nil
  then show ?case by simp
next
  case (Cons n ns)
  obtain xs where xs: "failedReads (scanEntry e sp f n st) = failedReads st @ xs" "length xs \<le> 1"
    using failedReads_scanEntry_grows by blast
  obtain ys where ys: "failedReads (fold (scanEntry e sp f) ns (scanEntry e sp f n st)) =
      failedReads (scanEntry e sp f n st) @ ys" "length ys \<le> length ns"
    using Cons.IH by blast
  from xs ys show ?case by (intro exI [of _ "xs @ ys"]) simp
qed

lemma refreshSavegames_listed:
  "readdirAsync e t0 savesPath = Inr entries \<Longrightarrow>
   refreshSavegames e savesPath onAdd t0 a0 =
     (Inr (failedReads (fold (scanEntry e savesPath onAdd) (filter (isSaveName e) entries)
                          (scanStart savesPath t0 a0))),
      fold (scanEntry e savesPath onAdd) (filter (isSaveName e) entries) (scanStart savesPath t0 a0))"
  by (simp add: refreshSavegames_def Let_def)

lemma refreshSavegames_rejects:
  "fst (refreshSavegames e savesPath onAdd t0 a0) = Inl err \<Longrightarrow>
   readdirAsync e t0 savesPath = Inl err \<and> code err \<noteq> Some ''ENOENT''"
  by (auto simp add: refreshSavegames_def Let_def split: sum.splits if_splits)

lemma refreshSavegames_resolves:
  "fst (refreshSavegames e savesPath onAdd t0 a0) = Inr fl \<Longrightarrow>
   fl = failedReads (snd (refreshSavegames e savesPath onAdd t0 a0))"
  by (auto simp add: refreshSavegames_def Let_def scanStart_def split: sum.splits if_splits)

lemma updateSaves_listed:
  "readdirAsync e t0 savesPath = Inr entries \<Longrightarrow>
   \<exists>r. updateSaves e getSaves profileId savesPath t0 = Inr r"
  by (simp add: updateSaves_def refreshSavegames_listed)

section \<open>Scans of an unchanged directory\<close>

lemma cb_loadWithRetry_unchanged:
  assumes u: "\<forall>t p. create e t p = create e 0 p"
  shows "cb (snd (loadWithRetry e sp (onAddNew (\<lambda>t. saves)) n st)) =
     (case create e 0 (path_join (path e) [sp, n]) of
        CallbackOk sg \<Rightarrow> onAddNew (\<lambda>t. saves) 0 (mk_save (path e) (path_join (path e) [sp, n]) sg) (cb st)
      | _ \<Rightarrow> cb st)"
proof -
  let ?p = "path_join (path e) [sp, n]"
  let ?f = "onAddNew (\<lambda>t. saves)"
  have c: "\<And>t. create e t ?p = create e 0 ?p" using u by blast
  show ?thesis
  proof (cases rule: loadWithRetry_cases [of e sp ?f n st])
    case first
    then show ?thesis
      by (simp add: cb_loadSaveGame c [of "clock st"] onAddNew_def split: create_result.splits)
  next
    case (retry err1)
    define st1 where "st1 = snd (loadSaveGame e ?p ?f st)"
    have "fst (loadSaveGame e ?p ?f st) \<noteq> None" using retry(1) by simp
    then have no: "\<forall>sg. create e 0 ?p \<noteq> CallbackOk sg"
      using fst_loadSaveGame_None [of e ?p ?f st] c [of "clock st"] by simp
    have c1: "cb st1 = cb st"
      unfolding st1_def using retry(1) by (rule cb_loadSaveGame_failed)
    have "cb (snd (loadSaveGame e ?p ?f (tick (Delayed 500) st1))) = cb st"
      using no c1 c [of "Suc (clock st1)"]
      by (simp add: cb_loadSaveGame tick_def split: create_result.splits)
    then show ?thesis
      using no by (simp add: retry(3) st1_def split: create_result.splits)
  qed
qed

lemma cb_fold_unchanged:
  assumes u: "\<forall>t p. create e t p = create e 0 p"
  shows "cb (fold (scanEntry e sp (onAddNew (\<lambda>t. saves))) ns st) =
     cb st @ filter (\<lambda>s. saves (save_id s) = None) (decoded e sp ns)"
proof (induction ns arbitrary: st)
  case Nil
  then show ?case by (simp add: decoded_def)
next
  case (Cons n ns)
  have "cb (scanEntry e sp (onAddNew (\<lambda>t. saves)) n st) =
      cb st @ filter (\<lambda>s. saves (save_id s) = None) (decoded e sp [n])"
    by (simp add: cb_scanEntry cb_loadWithRetry_unchanged [OF u] decoded_def onAddNew_def
        split: create_result.splits)
  then show ?case
    using Cons.IH [of "scanEntry e sp (onAddNew (\<lambda>t. saves)) n st"]
    by (simp add: decoded_def)
qed

lemma updateSaves_newSavegames_unchanged:
  assumes "unchanged e savesPath" and "readdirAsync e 0 savesPath = Inr entries"
    and "updateSaves e (\<lambda>t. saves) profileId savesPath t0 = Inr r"
  shows "newSavegames r =
     filter (\<lambda>s. saves (save_id s) = None) (decoded e savesPath (filter (isSaveName e) entries))"
proof -
  have l: "readdirAsync e t0 savesPath = Inr entries"
    using assms(1,2) by (simp add: unchanged_def)
  have uc: "\<forall>t p. create e t p = create e 0 p"
    using assms(1) by (simp add: unchanged_def)
  show ?thesis
    using assms(3)
    by (auto simp: updateSaves_def refreshSavegames_listed [OF l] cb_fold_unchanged [OF uc]
        scanStart_def)
qed

lemma dom_savesDict_fold:
  "dom (fold (\<lambda>save d. d(save_id save \<mapsto> save)) xs m) = dom m \<union> save_id ` set xs"
  by (induction xs arbitrary: m) auto

lemma dom_savesDict: "dom (savesDict xs) = save_id ` set xs"
  by (simp add: savesDict_def dom_savesDict_fold)

section \<open>Facts about the sample directories\<close>

lemma posix_join_saves:
  "path_join posix [''/saves'', ''save1.ess''] = ''/saves/save1.ess''"
  "path_join posix [''/saves'', ''save2.ess''] = ''/saves/save2.ess''"
  "path_join posix [''/saves'', ''Quick.FOS''] = ''/saves/Quick.FOS''"
  "path_join posix [''/saves'', ''locked.ess''] = ''/saves/locked.ess''"
  "path_join posix [''/saves'', ''autosave.ess''] = ''/saves/autosave.ess''"
  by (simp_all add: posix_def posix_join_def posix_normalize_def)

lemma posix_basename_saves:
  "path_basename posix ''/saves/save1.ess'' None = ''save1.ess''"
  "path_basename posix ''/saves/Quick.FOS'' None = ''Quick.FOS''"
  "path_basename posix ''/saves/autosave.ess'' None = ''autosave.ess''"
  by (simp_all add: posix_def posix_basename_def last_component_def)

lemma path_sample_envs: "path steady_env = posix" "path busy_env = posix"
  by (simp_all add: steady_env_def busy_env_def)

lemma steady_listing:
  "readdirAsync steady_env t ''/saves'' =
     Inr [''save1.ess'', ''notes.txt'', ''save2.ess'', ''Quick.FOS'', ''locked.ess'']"
  "readdirAsync steady_env t ''/docs'' = Inr [''notes.txt'', ''readme.md'', ''ess'', ''.ess'']"
  by (simp_all add: steady_env_def)

lemma steady_extnames:
  "toLowerCase (path_extname posix ''save1.ess'') = ''.ess''"
  "toLowerCase (path_extname posix ''notes.txt'') = ''.txt''"
  "toLowerCase (path_extname posix ''save2.ess'') = ''.ess''"
  "toLowerCase (path_extname posix ''Quick.FOS'') = ''.fos''"
  "toLowerCase (path_extname posix ''locked.ess'') = ''.ess''"
  "toLowerCase (path_extname posix ''readme.md'') = ''.md''"
  "toLowerCase (path_extname posix ''ess'') = []"
  "toLowerCase (path_extname posix ''.ess'') = []"
  by (simp_all add: posix_def posix_extname_def last_component_def toLowerCase_def lower_char_def)

lemma steady_candidates:
  "filter (isSaveName steady_env)
     [''save1.ess'', ''notes.txt'', ''save2.ess'', ''Quick.FOS'', ''locked.ess'']
   = [''save1.ess''] @ ''save2.ess'' # [''Quick.FOS'', ''locked.ess'']"
  by (simp add: isSaveName_def path_sample_envs steady_extnames)

lemma steady_create:
  "create steady_env t ''/saves/save1.ess'' = CallbackOk sample_sg"
  "create steady_env t ''/saves/save2.ess'' = CallbackErr invalid"
  "create steady_env t ''/saves/Quick.FOS'' = CallbackOk sample_sg"
  "create steady_env t ''/saves/locked.ess'' = CallbackErr busy"
  by (simp_all add: steady_env_def)

lemma steady_save1_ok: "fst (loadWithRetry steady_env ''/saves'' f ''save1.ess'' st) = None"
  by (simp add: loadWithRetry_def loadSaveGame_def path_sample_envs posix_join_saves steady_create
      Let_def)

lemma steady_save2_fails:
  "fst (loadWithRetry steady_env ''/saves'' f ''save2.ess'' st) = Some invalid"
  by (simp add: loadWithRetry_def loadSaveGame_def path_sample_envs posix_join_saves steady_create
      Let_def invalid_def)

lemma unchanged_steady: "unchanged steady_env ''/saves''"
  by (simp add: unchanged_def steady_env_def)

lemma steady_decoded:
  "decoded steady_env ''/saves'' [''save1.ess'', ''save2.ess'', ''Quick.FOS'', ''locked.ess''] =
     [mk_save posix ''/saves/save1.ess'' sample_sg, mk_save posix ''/saves/Quick.FOS'' sample_sg]"
  by (simp add: decoded_def path_sample_envs posix_join_saves steady_create)

lemma busy_code: "code busy = Some ''EBUSY''"
  by (simp add: busy_def)

lemma busy_first_attempt:
  "loadSaveGame busy_env ''/saves/autosave.ess'' f (scanStart ''/saves'' 0 a) =
     (Some busy,
      \<lparr>clock = 3,
         events = [Readdir ''/saves'', Create ''/saves/autosave.ess'', Open ''/saves/autosave.ess''],
         failedReads = [], cb = a\<rparr>)"
  by (simp add: loadSaveGame_def scanStart_def tick_def busy_env_def startsWith_def)

lemma busy_second_attempt:
  "loadSaveGame busy_env ''/saves/autosave.ess'' f
     (tick (Delayed 500)
        \<lparr>clock = 3,
           events = [Readdir ''/saves'', Create ''/saves/autosave.ess'', Open ''/saves/autosave.ess''],
           failedReads = [], cb = a\<rparr>) =
     (None,
      \<lparr>clock = 5,
         events = [Readdir ''/saves'', Create ''/saves/autosave.ess'', Open ''/saves/autosave.ess'',
                   Delayed 500, Create ''/saves/autosave.ess''],
         failedReads = [],
         cb = f 4 (mk_save posix ''/saves/autosave.ess'' sample_sg) a\<rparr>)"
  by (simp add: loadSaveGame_def tick_def busy_env_def)

lemma locked_first_attempt:
  "loadSaveGame busy_env ''/saves/locked.ess'' f (scanStart ''/saves'' 0 a) =
     (Some busy,
      \<lparr>clock = 2, events = [Readdir ''/saves'', Create ''/saves/locked.ess''],
         failedReads = [], cb = a\<rparr>)"
  by (simp add: loadSaveGame_def scanStart_def tick_def busy_env_def)

lemma locked_second_attempt:
  "loadSaveGame busy_env ''/saves/locked.ess'' f
     (tick (Delayed 500)
        \<lparr>clock = 2, events = [Readdir ''/saves'', Create ''/saves/locked.ess''],
           failedReads = [], cb = a\<rparr>) =
     (Some busy,
      \<lparr>clock = 4,
         events = [Readdir ''/saves'', Create ''/saves/locked.ess'', Delayed 500,
                   Create ''/saves/locked.ess''],
         failedReads = [], cb = a\<rparr>)"
  by (simp add: loadSaveGame_def tick_def busy_env_def)

lemma busy_autosave_ok:
  "fst (loadWithRetry busy_env ''/saves'' f ''autosave.ess'' (scanStart ''/saves'' 0 a)) = None"
  by (simp add: loadWithRetry_def Let_def path_sample_envs posix_join_saves busy_first_attempt
      busy_code busy_second_attempt)

lemma busy_create_autosave:
  "create busy_env t ''/saves/autosave.ess'' = CallbackOk sg \<Longrightarrow> sg = sample_sg"
  by (simp add: busy_env_def split: if_splits)

section \<open>The retry policy\<close>

text \<open>
  C1. Take any file of the scan, at any state \<open>st\<close> of the scan, whose first decode
  rejects with the code \<open>EBUSY\<close>. Among the calls the iteration adds, the decodes and
  waits are exactly: the decode, one wait of 500 ms, one more decode of the same path.
  When the second decode resolves, the iteration ends in the state that decode left
  (\<open>failedReads\<close> as before, the callback called once with the record); when it rejects
  with \<open>err2\<close>, whatever its code, \<open>failedReads\<close> grows by the one entry
  \<open>savegameName - message\<close> of \<open>err2\<close> and the callback was not called.
\<close>

theorem scanEntry_busy_retry:
  "p = path_join (path e) [savesPath, savegameName] \<Longrightarrow>
   loadSaveGame e p onAdd st = (Some err, st1) \<Longrightarrow>
   code err = Some ''EBUSY'' \<Longrightarrow>
   loadSaveGame e p onAdd (tick (Delayed 500) st1) = (r, st2) \<Longrightarrow>
   filter isAttempt (drop (length (events st)) (events (scanEntry e savesPath onAdd savegameName st)))
     = [Create p, Delayed 500, Create p] \<and>
   (case r of
      None \<Rightarrow>
        scanEntry e savesPath onAdd savegameName st = st2 \<and>
        failedReads st2 = failedReads st \<and>
        (\<exists>sg. create e (Suc (clock st1)) p = CallbackOk sg \<and>
              cb st2 = onAdd (Suc (clock st1)) (mk_save (path e) p sg) (cb st))
    | Some err2 \<Rightarrow>
        failedReads (scanEntry e savesPath onAdd savegameName st)
          = failedReads st @ [savegameName @ '' - '' @ message err2] \<and>
        cb (scanEntry e savesPath onAdd savegameName st) = cb st)"
proof -
  assume p: "p = path_join (path e) [savesPath, savegameName]"
    and first: "loadSaveGame e p onAdd st = (Some err, st1)"
    and busy: "code err = Some ''EBUSY''"
    and second: "loadSaveGame e p onAdd (tick (Delayed 500) st1) = (r, st2)"
  have lwr: "loadWithRetry e savesPath onAdd savegameName st = (r, st2)"
    using p first busy second by (simp add: loadWithRetry_def Let_def)
  have s1: "st1 = snd (loadSaveGame e p onAdd st)"
    and f1: "fst (loadSaveGame e p onAdd st) = Some err"
    using first by simp_all
  have s2: "st2 = snd (loadSaveGame e p onAdd (tick (Delayed 500) st1))"
    and f2: "r = fst (loadSaveGame e p onAdd (tick (Delayed 500) st1))"
    using second by simp_all
  have ev1: "events st1 = events st @ Create p # probes e (clock st) p"
    unfolding s1 by (rule events_loadSaveGame)
  have cb1: "cb st1 = cb st"
    unfolding s1 using f1 by (rule cb_loadSaveGame_failed)
  have fr1: "failedReads st1 = failedReads st"
    unfolding s1 by (rule failedReads_loadSaveGame)
  have ev2: "events st2 = events st1 @ Delayed 500 # Create p # probes e (Suc (clock st1)) p"
    unfolding s2 by (simp add: events_loadSaveGame tick_def)
  have fr2: "failedReads st2 = failedReads st"
    unfolding s2 by (simp add: failedReads_loadSaveGame tick_def fr1)
  have cb2: "cb st2 = (case create e (Suc (clock st1)) p of
        CallbackOk sg \<Rightarrow> onAdd (Suc (clock st1)) (mk_save (path e) p sg) (cb st)
      | _ \<Rightarrow> cb st)"
    unfolding s2 by (simp add: cb_loadSaveGame tick_def cb1 split: create_result.splits)
  have ok2: "r = None \<longleftrightarrow> (\<exists>sg. create e (Suc (clock st1)) p = CallbackOk sg)"
    unfolding f2 by (simp add: fst_loadSaveGame_None tick_def)
  show ?thesis
  proof (cases r)
    case None
    then obtain sg where sg: "create e (Suc (clock st1)) p = CallbackOk sg"
      using ok2 by blast
    have "scanEntry e savesPath onAdd savegameName st = st2"
      using lwr None by (simp add: scanEntry_def Let_def)
    with None sg cb2 fr2 ev1 ev2 show ?thesis by (simp add: isAttempt_probes)
  next
    case (Some err2)
    have se: "scanEntry e savesPath onAdd savegameName st =
        st2\<lparr>failedReads := failedReads st2 @ [savegameName @ '' - '' @ message err2],
            events := events st2 @ [LogWarn ''Failed to parse savegame'' p (message err2)]\<rparr>"
      using lwr Some p by (simp add: scanEntry_def Let_def)
    have "\<forall>sg. create e (Suc (clock st1)) p \<noteq> CallbackOk sg"
      using ok2 Some by simp
    then have "cb st2 = cb st"
      using cb2 by (simp split: create_result.splits)
    with Some se fr2 ev1 ev2 show ?thesis by (simp add: isAttempt_probes)
  qed
qed

theorem scanEntry_busy_retry_witness:
  "filter isAttempt (drop 1 (events (scanEntry busy_env ''/saves'' (\<lambda>t s a. a @ [s])
       ''autosave.ess'' (scanStart ''/saves'' 0 []))))
     = [Create ''/saves/autosave.ess'', Delayed 500, Create ''/saves/autosave.ess''] \<and>
   failedReads (scanEntry busy_env ''/saves'' (\<lambda>t s a. a @ [s])
       ''autosave.ess'' (scanStart ''/saves'' 0 [])) = [] \<and>
   cb (scanEntry busy_env ''/saves'' (\<lambda>t s a. a @ [s])
       ''autosave.ess'' (scanStart ''/saves'' 0 []))
     = [mk_save posix ''/saves/autosave.ess'' sample_sg] \<and>
   filter isAttempt (drop 1 (events (scanEntry busy_env ''/saves'' (\<lambda>t s a. a @ [s])
       ''locked.ess'' (scanStart ''/saves'' 0 []))))
     = [Create ''/saves/locked.ess'', Delayed 500, Create ''/saves/locked.ess''] \<and>
   failedReads (scanEntry busy_env ''/saves'' (\<lambda>t s a. a @ [s])
       ''locked.ess'' (scanStart ''/saves'' 0 []))
     = [''locked.ess - EBUSY: resource busy or locked''] \<and>
   cb (scanEntry busy_env ''/saves'' (\<lambda>t s a. a @ [s])
       ''locked.ess'' (scanStart ''/saves'' 0 [])) = []"
proof -
  let ?f = "\<lambda>(t::nat) (s::ISavegame) a. a @ [s]"
  have pa: "''/saves/autosave.ess'' = path_join (path busy_env) [''/saves'', ''autosave.ess'']"
    by (simp add: path_sample_envs posix_join_saves)
  have pl: "''/saves/locked.ess'' = path_join (path busy_env) [''/saves'', ''locked.ess'']"
    by (simp add: path_sample_envs posix_join_saves)
  note a = scanEntry_busy_retry [OF pa busy_first_attempt [of ?f "[]"] busy_code
      busy_second_attempt [of ?f "[]"]]
  note l = scanEntry_busy_retry [OF pl locked_first_attempt [of ?f "[]"] busy_code
      locked_second_attempt [of ?f "[]"]]
  have len: "length (events (scanStart ''/saves'' 0 ([]::ISavegame list))) = 1"
    by (simp add: scanStart_def)
  have c0: "cb (scanStart ''/saves'' 0 ([]::ISavegame list)) = []"
    and f0: "failedReads (scanStart ''/saves'' 0 ([]::ISavegame list)) = []"
    by (simp_all add: scanStart_def)
  from a l show ?thesis
    by (simp add: len c0 f0 path_sample_envs busy_def)
qed

section \<open>Failures are collected\<close>

text \<open>
  C2. A scan rejects only with the rejection of the directory listing (never with
  \<open>ENOENT\<close>), and when it resolves it resolves with the \<open>failedReads\<close> it accumulated.
  When the listing succeeds and the decode of a candidate \<open>savegameName\<close>, retry
  included, ends in the rejection \<open>err\<close>, the resolved list holds the entry
  \<open>savegameName - message\<close> right after the entries of the files before it, and every
  candidate after it is still handed to the decoder.
\<close>

theorem refreshSavegames_failures_collected:
  "(\<forall>err'. fst (refreshSavegames e savesPath onAdd t0 a0) = Inl err' \<longrightarrow>
        readdirAsync e t0 savesPath = Inl err' \<and> code err' \<noteq> Some ''ENOENT'') \<and>
   (\<forall>fl. fst (refreshSavegames e savesPath onAdd t0 a0) = Inr fl \<longrightarrow>
        fl = failedReads (snd (refreshSavegames e savesPath onAdd t0 a0))) \<and>
   (\<forall>entries pre savegameName post err.
      readdirAsync e t0 savesPath = Inr entries \<and>
      filter (isSaveName e) entries = pre @ savegameName # post \<and>
      fst (loadWithRetry e savesPath onAdd savegameName
             (fold (scanEntry e savesPath onAdd) pre (scanStart savesPath t0 a0))) = Some err
      \<longrightarrow> (\<exists>rest. fst (refreshSavegames e savesPath onAdd t0 a0) =
              Inr (failedReads (fold (scanEntry e savesPath onAdd) pre (scanStart savesPath t0 a0))
                   @ [savegameName @ '' - '' @ message err] @ rest)) \<and>
          (\<forall>n \<in> set post. path_join (path e) [savesPath, n]
               \<in> set (decodeCalls (snd (refreshSavegames e savesPath onAdd t0 a0)))))"
proof -
  have rej: "\<forall>err'. fst (refreshSavegames e savesPath onAdd t0 a0) = Inl err' \<longrightarrow>
        readdirAsync e t0 savesPath = Inl err' \<and> code err' \<noteq> Some ''ENOENT''"
    by (intro allI impI) (rule refreshSavegames_rejects)
  have res: "\<forall>fl. fst (refreshSavegames e savesPath onAdd t0 a0) = Inr fl \<longrightarrow>
        fl = failedReads (snd (refreshSavegames e savesPath onAdd t0 a0))"
    by (intro allI impI) (rule refreshSavegames_resolves)
  have bad: "(\<exists>rest. fst (refreshSavegames e savesPath onAdd t0 a0) =
              Inr (failedReads (fold (scanEntry e savesPath onAdd) pre (scanStart savesPath t0 a0))
                   @ [savegameName @ '' - '' @ message err] @ rest)) \<and>
          (\<forall>n \<in> set post. path_join (path e) [savesPath, n]
               \<in> set (decodeCalls (snd (refreshSavegames e savesPath onAdd t0 a0))))"
    if h: "readdirAsync e t0 savesPath = Inr entries \<and>
      filter (isSaveName e) entries = pre @ savegameName # post \<and>
      fst (loadWithRetry e savesPath onAdd savegameName
             (fold (scanEntry e savesPath onAdd) pre (scanStart savesPath t0 a0))) = Some err"
    for entries pre savegameName post err
  proof -
    define st where "st = fold (scanEntry e savesPath onAdd) pre (scanStart savesPath t0 a0)"
    define stf where
      "stf = fold (scanEntry e savesPath onAdd) post (scanEntry e savesPath onAdd savegameName st)"
    have R: "refreshSavegames e savesPath onAdd t0 a0 = (Inr (failedReads stf), stf)"
      using h refreshSavegames_listed [of e t0 savesPath entries onAdd a0]
      by (simp add: st_def stf_def)
    have one: "failedReads (scanEntry e savesPath onAdd savegameName st) =
        failedReads st @ [savegameName @ '' - '' @ message err]"
      using h by (simp add: failedReads_scanEntry_failed st_def)
    obtain rest where
      "failedReads stf = failedReads (scanEntry e savesPath onAdd savegameName st) @ rest"
      unfolding stf_def using failedReads_fold_grows by blast
    with one R have p1: "\<exists>rest. fst (refreshSavegames e savesPath onAdd t0 a0) =
              Inr (failedReads (fold (scanEntry e savesPath onAdd) pre (scanStart savesPath t0 a0))
                   @ [savegameName @ '' - '' @ message err] @ rest)"
      by (simp add: st_def)
    have "decodes stf = decodes (scanEntry e savesPath onAdd savegameName st) \<union>
        (\<lambda>n. path_join (path e) [savesPath, n]) ` set post"
      unfolding stf_def by (rule decodes_fold)
    with R have p2: "\<forall>n \<in> set post. path_join (path e) [savesPath, n]
               \<in> set (decodeCalls (snd (refreshSavegames e savesPath onAdd t0 a0)))"
      by (simp add: set_decodeCalls)
    from p1 p2 show ?thesis by (rule conjI)
  qed
  from rej res bad show ?thesis by blast
qed

theorem refreshSavegames_failures_collected_witness:
  "(\<exists>rest. fst (refreshSavegames steady_env ''/saves'' (onAddNew (\<lambda>t. Map.empty)) 0 []) =
       Inr ([''save2.ess - wrong file format''] @ rest)) \<and>
   ''/saves/Quick.FOS'' \<in> set (decodeCalls (snd
       (refreshSavegames steady_env ''/saves'' (onAddNew (\<lambda>t. Map.empty)) 0 []))) \<and>
   ''/saves/locked.ess'' \<in> set (decodeCalls (snd
       (refreshSavegames steady_env ''/saves'' (onAddNew (\<lambda>t. Map.empty)) 0 [])))"
proof -
  let ?f = "onAddNew (\<lambda>t. Map.empty)"
  let ?st = "fold (scanEntry steady_env ''/saves'' ?f) [''save1.ess''] (scanStart ''/saves'' 0 [])"
  have before: "failedReads (scanEntry steady_env ''/saves'' ?f ''save1.ess''
      (scanStart ''/saves'' 0 [])) = []"
    by (simp add: failedReads_scanEntry_ok [OF steady_save1_ok] scanStart_def)
  have "readdirAsync steady_env 0 ''/saves'' =
      Inr [''save1.ess'', ''notes.txt'', ''save2.ess'', ''Quick.FOS'', ''locked.ess''] \<and>
    filter (isSaveName steady_env)
      [''save1.ess'', ''notes.txt'', ''save2.ess'', ''Quick.FOS'', ''locked.ess'']
      = [''save1.ess''] @ ''save2.ess'' # [''Quick.FOS'', ''locked.ess''] \<and>
    fst (loadWithRetry steady_env ''/saves'' ?f ''save2.ess'' ?st) = Some invalid"
    using steady_listing(1) steady_candidates steady_save2_fails by blast
  with refreshSavegames_failures_collected [of steady_env "''/saves''" ?f 0 "[]"]
  have "(\<exists>rest. fst (refreshSavegames steady_env ''/saves'' ?f 0 []) =
            Inr (failedReads ?st @ [''save2.ess'' @ '' - '' @ message invalid] @ rest)) \<and>
        (\<forall>n \<in> set [''Quick.FOS'', ''locked.ess'']. path_join (path steady_env) [''/saves'', n]
             \<in> set (decodeCalls (snd (refreshSavegames steady_env ''/saves'' ?f 0 []))))"
    by blast
  then show ?thesis
    by (simp add: before invalid_def path_sample_envs posix_join_saves)
qed

section \<open>Directory listing\<close>

text \<open>
  C3. When the listing fails with the code \<open>ENOENT\<close> the scan resolves with an empty
  failure list in the state it started in: no decode, no call of the callback, and the
  new-record list of \<open>updateSaves\<close> is empty. A listing error with any other code, or
  with none, is the rejection of the scan and of \<open>updateSaves\<close>.
\<close>

theorem refreshSavegames_listing_error:
  "readdirAsync e t0 savesPath = Inl err \<Longrightarrow>
     (code err = Some ''ENOENT'' \<longrightarrow>
        fst (refreshSavegames e savesPath onAdd t0 a0) = Inr [] \<and>
        snd (refreshSavegames e savesPath onAdd t0 a0) = scanStart savesPath t0 a0 \<and>
        (\<exists>r. updateSaves e getSaves profileId savesPath t0 = Inr r \<and>
              newSavegames r = [] \<and> failed r = [])) \<and>
     (code err \<noteq> Some ''ENOENT'' \<longrightarrow>
        fst (refreshSavegames e savesPath onAdd t0 a0) = Inl err \<and>
        updateSaves e getSaves profileId savesPath t0 = Inl err)"
  by (simp add: refreshSavegames_def updateSaves_def scanStart_def)

theorem refreshSavegames_listing_error_witness:
  "fst (refreshSavegames steady_env ''/nowhere'' (onAddNew (\<lambda>t. Map.empty)) 0 []) = Inr [] \<and>
   snd (refreshSavegames steady_env ''/nowhere'' (onAddNew (\<lambda>t. Map.empty)) 0 []) =
     scanStart ''/nowhere'' 0 [] \<and>
   (\<exists>r. updateSaves steady_env (\<lambda>t. Map.empty) ''p1'' ''/nowhere'' 0 = Inr r \<and>
        newSavegames r = [] \<and> failed r = []) \<and>
   fst (refreshSavegames steady_env ''/private'' (onAddNew (\<lambda>t. Map.empty)) 0 []) = Inl eacces \<and>
   updateSaves steady_env (\<lambda>t. Map.empty) ''p1'' ''/private'' 0 = Inl eacces"
proof -
  have a: "readdirAsync steady_env 0 ''/nowhere'' = Inl enoent"
    by (simp add: steady_env_def)
  have b: "readdirAsync steady_env 0 ''/private'' = Inl eacces"
    by (simp add: steady_env_def)
  have ca: "code enoent = Some ''ENOENT''" by (simp add: enoent_def)
  have cb: "code eacces \<noteq> Some ''ENOENT''" by (simp add: eacces_def)
  from refreshSavegames_listing_error [OF a, of "onAddNew (\<lambda>t. Map.empty)" "[]" "\<lambda>t. Map.empty" "''p1''"]
       refreshSavegames_listing_error [OF b, of "onAddNew (\<lambda>t. Map.empty)" "[]" "\<lambda>t. Map.empty" "''p1''"]
       ca cb
  show ?thesis by blast
qed

section \<open>The extension filter\<close>

lemma lower_char_e: "lower_char c = CHR ''e'' \<longleftrightarrow> c = CHR ''e'' \<or> c = CHR ''E''"
  by (simp add: lower_char_def split: if_splits)

lemma lower_char_s: "lower_char c = CHR ''s'' \<longleftrightarrow> c = CHR ''s'' \<or> c = CHR ''S''"
  by (simp add: lower_char_def split: if_splits)

lemma lower_char_f: "lower_char c = CHR ''f'' \<longleftrightarrow> c = CHR ''f'' \<or> c = CHR ''F''"
  by (simp add: lower_char_def split: if_splits)

lemma lower_char_o: "lower_char c = CHR ''o'' \<longleftrightarrow> c = CHR ''o'' \<or> c = CHR ''O''"
  by (simp add: lower_char_def split: if_splits)

lemma lower_char_dot: "lower_char c = CHR ''.'' \<longleftrightarrow> c = CHR ''.''"
  by (simp add: lower_char_def split: if_splits)

lemma toLowerCase_ess:
  "toLowerCase x = ''.ess'' \<longleftrightarrow>
     (\<exists>a b c. x = [CHR ''.'', a, b, c] \<and> a \<in> {CHR ''e'', CHR ''E''} \<and>
        b \<in> {CHR ''s'', CHR ''S''} \<and> c \<in> {CHR ''s'', CHR ''S''})"
  by (auto simp add: toLowerCase_def map_eq_Cons_conv lower_char_e lower_char_s lower_char_dot)

lemma toLowerCase_fos:
  "toLowerCase x = ''.fos'' \<longleftrightarrow>
     (\<exists>a b c. x = [CHR ''.'', a, b, c] \<and> a \<in> {CHR ''f'', CHR ''F''} \<and>
        b \<in> {CHR ''o'', CHR ''O''} \<and> c \<in> {CHR ''s'', CHR ''S''})"
  by (auto simp add: toLowerCase_def map_eq_Cons_conv lower_char_f lower_char_o lower_char_s lower_char_dot)

text \<open>
  C4. When the listing succeeds, the paths handed to the decoder are exactly the joins of
  the directory with the entries whose \<open>path.extname\<close>, lower-cased, is \<open>.ess\<close> or
  \<open>.fos\<close>. When no entry is of that kind the scan resolves with an empty failure list
  in the state it started in, and the new-record list of \<open>updateSaves\<close> is empty.
  Lower-casing compares without regard to case: a string lower-cases to \<open>.ess\<close>
  exactly when it is a dot followed by \<open>e\<close>, \<open>s\<close>, \<open>s\<close> in either case, and
  likewise for \<open>.fos\<close>.
\<close>

theorem refreshSavegames_decodes_save_files:
  "readdirAsync e t0 savesPath = Inr entries \<Longrightarrow>
   set (decodeCalls (snd (refreshSavegames e savesPath onAdd t0 a0))) =
     (\<lambda>n. path_join (path e) [savesPath, n]) `
       {n \<in> set entries. toLowerCase (path_extname (path e) n) = ''.ess'' \<or>
                          toLowerCase (path_extname (path e) n) = ''.fos''} \<and>
   ((\<forall>n \<in> set entries. toLowerCase (path_extname (path e) n) \<noteq> ''.ess'' \<and>
                         toLowerCase (path_extname (path e) n) \<noteq> ''.fos'') \<longrightarrow>
      refreshSavegames e savesPath onAdd t0 a0 = (Inr [], scanStart savesPath t0 a0) \<and>
      (\<exists>r. updateSaves e getSaves profileId savesPath t0 = Inr r \<and>
           newSavegames r = [] \<and> failed r = [])) \<and>
   (\<forall>x. toLowerCase x = ''.ess'' \<longleftrightarrow>
      (\<exists>a b c. x = [CHR ''.'', a, b, c] \<and> a \<in> {CHR ''e'', CHR ''E''} \<and>
         b \<in> {CHR ''s'', CHR ''S''} \<and> c \<in> {CHR ''s'', CHR ''S''})) \<and>
   (\<forall>x. toLowerCase x = ''.fos'' \<longleftrightarrow>
      (\<exists>a b c. x = [CHR ''.'', a, b, c] \<and> a \<in> {CHR ''f'', CHR ''F''} \<and>
         b \<in> {CHR ''o'', CHR ''O''} \<and> c \<in> {CHR ''s'', CHR ''S''}))"
proof -
  assume l: "readdirAsync e t0 savesPath = Inr entries"
  have R: "\<And>f a. refreshSavegames e savesPath f t0 a =
     (Inr (failedReads (fold (scanEntry e savesPath f) (filter (isSaveName e) entries)
                          (scanStart savesPath t0 a))),
      fold (scanEntry e savesPath f) (filter (isSaveName e) entries) (scanStart savesPath t0 a))"
    using l by (rule refreshSavegames_listed)
  have d0: "decodes (scanStart savesPath t0 a0) = {}"
    by (simp add: decodes_def scanStart_def)
  have a: "set (decodeCalls (snd (refreshSavegames e savesPath onAdd t0 a0))) =
     (\<lambda>n. path_join (path e) [savesPath, n]) `
       {n \<in> set entries. toLowerCase (path_extname (path e) n) = ''.ess'' \<or>
                          toLowerCase (path_extname (path e) n) = ''.fos''}"
    by (auto simp add: R set_decodeCalls decodes_fold d0 isSaveName_def)
  have b: "refreshSavegames e savesPath onAdd t0 a0 = (Inr [], scanStart savesPath t0 a0) \<and>
      (\<exists>r. updateSaves e getSaves profileId savesPath t0 = Inr r \<and>
           newSavegames r = [] \<and> failed r = [])"
    if none: "\<forall>n \<in> set entries. toLowerCase (path_extname (path e) n) \<noteq> ''.ess'' \<and>
                         toLowerCase (path_extname (path e) n) \<noteq> ''.fos''"
  proof -
    have "filter (isSaveName e) entries = []"
      using none by (simp add: isSaveName_def filter_empty_conv)
    then show ?thesis
      by (simp add: R updateSaves_def scanStart_def)
  qed
  from a b toLowerCase_ess toLowerCase_fos show ?thesis by blast
qed

theorem refreshSavegames_decodes_save_files_witness:
  "set (decodeCalls (snd (refreshSavegames steady_env ''/saves'' (\<lambda>t s a. a @ [s]) 0 []))) =
     {''/saves/save1.ess'', ''/saves/save2.ess'', ''/saves/Quick.FOS'', ''/saves/locked.ess''} \<and>
   refreshSavegames steady_env ''/docs'' (\<lambda>t s a. a @ [s]) 0 [] =
     (Inr [], scanStart ''/docs'' 0 []) \<and>
   (\<exists>r. updateSaves steady_env (\<lambda>t. Map.empty) ''profile1'' ''/docs'' 0 = Inr r \<and>
        newSavegames r = [] \<and> failed r = [])"
proof -
  let ?f = "\<lambda>(t::nat) (s::ISavegame) a. a @ [s]"
  note s = refreshSavegames_decodes_save_files [where onAdd = ?f and ?a0.0 = "[]",
      OF steady_listing(1) [of 0], THEN conjunct1]
  note d = refreshSavegames_decodes_save_files [where onAdd = ?f and ?a0.0 = "[]"
      and getSaves = "\<lambda>t. Map.empty" and profileId = "''profile1''", OF steady_listing(2) [of 0],
      THEN conjunct2, THEN conjunct1]
  have cand: "{n \<in> set [''save1.ess'', ''notes.txt'', ''save2.ess'', ''Quick.FOS'', ''locked.ess''].
       toLowerCase (path_extname (path steady_env) n) = ''.ess'' \<or>
       toLowerCase (path_extname (path steady_env) n) = ''.fos''}
     = set [''save1.ess'', ''save2.ess'', ''Quick.FOS'', ''locked.ess'']"
    unfolding set_filter [symmetric]
    by (simp add: path_sample_envs steady_extnames)
  have none: "\<forall>n \<in> set [''notes.txt'', ''readme.md'', ''ess'', ''.ess''].
       toLowerCase (path_extname (path steady_env) n) \<noteq> ''.ess'' \<and>
       toLowerCase (path_extname (path steady_env) n) \<noteq> ''.fos''"
    by (simp add: path_sample_envs steady_extnames)
  from s have "set (decodeCalls (snd (refreshSavegames steady_env ''/saves'' ?f 0 []))) =
     {''/saves/save1.ess'', ''/saves/save2.ess'', ''/saves/Quick.FOS'', ''/saves/locked.ess''}"
    unfolding cand by (simp add: path_sample_envs posix_join_saves)
  moreover from d none have "refreshSavegames steady_env ''/docs'' ?f 0 [] =
     (Inr [], scanStart ''/docs'' 0 []) \<and>
   (\<exists>r. updateSaves steady_env (\<lambda>t. Map.empty) ''profile1'' ''/docs'' 0 = Inr r \<and>
        newSavegames r = [] \<and> failed r = [])"
    by blast
  ultimately show ?thesis by blast
qed

section \<open>Decoded records\<close>

text \<open>
  C5. Take any file of a scan run by \<open>updateSaves\<close>, at any state \<open>st\<close>, whose decode
  (retry included) resolves. The decoder called back with a save \<open>sg\<close> at some clock
  \<open>t\<close> of this iteration; the record built from it has the base name of the file's
  path as its id; \<open>failedReads\<close> is as before the iteration; and the record is appended
  to the new-record list exactly when the store's saves hold nothing under that id at
  clock \<open>t\<close>.
\<close>

theorem scanEntry_decoded_record:
  "p = path_join (path e) [savesPath, savegameName] \<Longrightarrow>
   fst (loadWithRetry e savesPath (onAddNew getSaves) savegameName st) = None \<Longrightarrow>
   (\<exists>t sg. clock st \<le> t \<and> create e t p = CallbackOk sg \<and>
      save_id (mk_save (path e) p sg) = path_basename (path e) p None \<and>
      failedReads (scanEntry e savesPath (onAddNew getSaves) savegameName st) = failedReads st \<and>
      cb (scanEntry e savesPath (onAddNew getSaves) savegameName st) =
        (if getSaves t (path_basename (path e) p None) = None
         then cb st @ [mk_save (path e) p sg] else cb st))"
proof -
  assume p: "p = path_join (path e) [savesPath, savegameName]"
    and ok: "fst (loadWithRetry e savesPath (onAddNew getSaves) savegameName st) = None"
  let ?f = "onAddNew getSaves"
  have fr: "failedReads (scanEntry e savesPath ?f savegameName st) = failedReads st"
    using ok by (rule failedReads_scanEntry_ok)
  have cbs: "cb (scanEntry e savesPath ?f savegameName st) =
      cb (snd (loadWithRetry e savesPath ?f savegameName st))"
    by (rule cb_scanEntry)
  have id: "\<And>sg. save_id (mk_save (path e) p sg) = path_basename (path e) p None"
    by (simp add: mk_save_def)
  show ?thesis
  proof (cases rule: loadWithRetry_cases [of e savesPath ?f savegameName st])
    case first
    then have "fst (loadSaveGame e p ?f st) = None"
      using ok p by simp
    then obtain sg where sg: "create e (clock st) p = CallbackOk sg"
      using fst_loadSaveGame_None by blast
    have "cb (scanEntry e savesPath ?f savegameName st) =
        ?f (clock st) (mk_save (path e) p sg) (cb st)"
      using first sg p by (simp add: cbs cb_loadSaveGame)
    then show ?thesis
      using sg fr id by (intro exI [of _ "clock st"] exI [of _ sg]) (simp add: onAddNew_def)
  next
    case (retry err1)
    define st1 where "st1 = snd (loadSaveGame e p ?f st)"
    have c1: "cb st1 = cb st"
      unfolding st1_def using retry(1) p by (simp add: cb_loadSaveGame_failed)
    have t1: "clock st \<le> Suc (clock st1)"
      unfolding st1_def by (simp add: clock_loadSaveGame)
    have lw: "loadWithRetry e savesPath ?f savegameName st =
        loadSaveGame e p ?f (tick (Delayed 500) st1)"
      using retry(3) p by (simp add: st1_def)
    then have "fst (loadSaveGame e p ?f (tick (Delayed 500) st1)) = None"
      using ok by simp
    then obtain sg where sg: "create e (Suc (clock st1)) p = CallbackOk sg"
      using fst_loadSaveGame_None [of e p ?f "tick (Delayed 500) st1"] by (auto simp: tick_def)
    have "cb (scanEntry e savesPath ?f savegameName st) =
        ?f (Suc (clock st1)) (mk_save (path e) p sg) (cb st)"
      using lw sg c1 by (simp add: cbs cb_loadSaveGame tick_def)
    then show ?thesis
      using sg fr id t1
      by (intro exI [of _ "Suc (clock st1)"] exI [of _ sg]) (simp add: onAddNew_def)
  qed
qed

theorem scanEntry_decoded_record_witness:
  "save_id (mk_save posix ''/saves/autosave.ess'' sample_sg) = ''autosave.ess'' \<and>
   failedReads (scanEntry busy_env ''/saves'' (onAddNew (\<lambda>t. Map.empty)) ''autosave.ess''
      (scanStart ''/saves'' 0 [])) = [] \<and>
   cb (scanEntry busy_env ''/saves'' (onAddNew (\<lambda>t. Map.empty)) ''autosave.ess''
      (scanStart ''/saves'' 0 [])) = [mk_save posix ''/saves/autosave.ess'' sample_sg] \<and>
   cb (scanEntry busy_env ''/saves''
         (onAddNew (\<lambda>t. [''autosave.ess'' \<mapsto> mk_save posix ''/old/autosave.ess'' sample_sg]))
         ''autosave.ess'' (scanStart ''/saves'' 0 [])) = []"
proof -
  let ?known = "\<lambda>t::nat. [''autosave.ess'' \<mapsto> mk_save posix ''/old/autosave.ess'' sample_sg]"
  have p: "''/saves/autosave.ess'' = path_join (path busy_env) [''/saves'', ''autosave.ess'']"
    by (simp add: path_sample_envs posix_join_saves)
  have c0: "cb (scanStart ''/saves'' 0 ([]::ISavegame list)) = []"
    and f0: "failedReads (scanStart ''/saves'' 0 ([]::ISavegame list)) = []"
    by (simp_all add: scanStart_def)
  from scanEntry_decoded_record [where getSaves = "\<lambda>t. Map.empty" and st = "scanStart ''/saves'' 0 []",
      OF p busy_autosave_ok]
  obtain t sg where a: "create busy_env t ''/saves/autosave.ess'' = CallbackOk sg"
    "save_id (mk_save (path busy_env) ''/saves/autosave.ess'' sg) =
       path_basename (path busy_env) ''/saves/autosave.ess'' None"
    "failedReads (scanEntry busy_env ''/saves'' (onAddNew (\<lambda>t. Map.empty)) ''autosave.ess''
      (scanStart ''/saves'' 0 [])) = failedReads (scanStart ''/saves'' 0 ([]::ISavegame list))"
    "cb (scanEntry busy_env ''/saves'' (onAddNew (\<lambda>t. Map.empty)) ''autosave.ess''
      (scanStart ''/saves'' 0 [])) =
       cb (scanStart ''/saves'' 0 []) @ [mk_save (path busy_env) ''/saves/autosave.ess'' sg]"
    by auto
  from scanEntry_decoded_record [where getSaves = ?known and st = "scanStart ''/saves'' 0 []",
      OF p busy_autosave_ok]
  have b:
    "cb (scanEntry busy_env ''/saves'' (onAddNew ?known) ''autosave.ess''
      (scanStart ''/saves'' 0 [])) = cb (scanStart ''/saves'' 0 [])"
    by (auto simp add: path_sample_envs posix_basename_saves)
  from a b busy_create_autosave [OF a(1)] show ?thesis
    by (simp add: c0 f0 path_sample_envs posix_basename_saves)
qed

section \<open>Two scans in a row\<close>

text \<open>
  C6. Let the directory be unchanged (its listing and the decoder's answers do not depend
  on the time of the call), let a first run of \<open>updateSaves\<close> against the saves
  \<open>saves1\<close> resolve with \<open>r1\<close>, and let the saves \<open>saves2\<close> of the second run hold
  every id of \<open>saves1\<close> and every id of the dictionary the first run dispatched. Then the
  second run resolves with an empty new-record list.
\<close>

theorem updateSaves_second_scan_empty:
  "unchanged e savesPath \<Longrightarrow>
   updateSaves e (\<lambda>t. saves1) profileId savesPath t1 = Inr r1 \<Longrightarrow>
   dom saves1 \<union> dom (dispatched r1) \<subseteq> dom saves2 \<Longrightarrow>
   (\<exists>r2. updateSaves e (\<lambda>t. saves2) profileId savesPath t2 = Inr r2 \<and> newSavegames r2 = [])"
proof -
  assume u: "unchanged e savesPath"
    and first: "updateSaves e (\<lambda>t. saves1) profileId savesPath t1 = Inr r1"
    and merged: "dom saves1 \<union> dom (dispatched r1) \<subseteq> dom saves2"
  have uc: "\<forall>t p. create e t p = create e 0 p" using u by (simp add: unchanged_def)
  have ul: "\<And>t. readdirAsync e t savesPath = readdirAsync e 0 savesPath"
    using u by (simp add: unchanged_def)
  show ?thesis
  proof (cases "readdirAsync e 0 savesPath")
    case (Inl err)
    then have l1: "readdirAsync e t1 savesPath = Inl err" and l2: "readdirAsync e t2 savesPath = Inl err"
      using ul [of t1] ul [of t2] by simp_all
    have "code err = Some ''ENOENT''"
      using first l1 by (auto simp: updateSaves_def refreshSavegames_def split: if_splits)
    then show ?thesis
      using l2 by (simp add: updateSaves_def refreshSavegames_def scanStart_def)
  next
    case (Inr entries)
    then have l1: "readdirAsync e t1 savesPath = Inr entries" and l2: "readdirAsync e t2 savesPath = Inr entries"
      using ul [of t1] ul [of t2] by simp_all
    let ?ns = "filter (isSaveName e) entries"
    have n1: "newSavegames r1 = filter (\<lambda>s. saves1 (save_id s) = None) (decoded e savesPath ?ns)"
      using first
      by (auto simp: updateSaves_def refreshSavegames_listed [OF l1] cb_fold_unchanged [OF uc] scanStart_def)
    have d1: "dispatched r1 = savesDict (newSavegames r1)"
      using first
      by (auto simp: updateSaves_def refreshSavegames_listed [OF l1])
    have known: "saves2 (save_id s) \<noteq> None" if "s \<in> set (decoded e savesPath ?ns)" for s
    proof (cases "saves1 (save_id s)")
      case None
      then have "s \<in> set (newSavegames r1)" using that n1 by simp
      then have "save_id s \<in> dom (dispatched r1)" by (simp add: d1 dom_savesDict)
      then show ?thesis using merged by blast
    next
      case (Some a)
      then have "save_id s \<in> dom saves1" by blast
      then show ?thesis using merged by blast
    qed
    have "filter (\<lambda>s. saves2 (save_id s) = None) (decoded e savesPath ?ns) = []"
      using known by (simp add: filter_empty_conv)
    then show ?thesis
      by (simp add: updateSaves_def refreshSavegames_listed [OF l2] cb_fold_unchanged [OF uc] scanStart_def)
  qed
qed

theorem updateSaves_second_scan_empty_witness:
  "\<exists>r1 r2. updateSaves steady_env (\<lambda>t. Map.empty) ''profile1'' ''/saves'' 0 = Inr r1 \<and>
      map save_id (newSavegames r1) = [''save1.ess'', ''Quick.FOS''] \<and>
      updateSaves steady_env (\<lambda>t. dispatched r1) ''profile1'' ''/saves'' (finished r1) = Inr r2 \<and>
      newSavegames r2 = []"
proof -
  obtain r1 where r1: "updateSaves steady_env (\<lambda>t. Map.empty) ''profile1'' ''/saves'' 0 = Inr r1"
    using updateSaves_listed [OF steady_listing(1)] by blast
  have n1: "map save_id (newSavegames r1) = [''save1.ess'', ''Quick.FOS'']"
    using updateSaves_newSavegames_unchanged [OF unchanged_steady steady_listing(1) r1,
        unfolded steady_candidates append.simps steady_decoded]
    by (simp add: mk_save_def posix_basename_saves)
  have m: "dom Map.empty \<union> dom (dispatched r1) \<subseteq> dom (dispatched r1)"
    by simp
  from updateSaves_second_scan_empty [where ?t2.0 = "finished r1", OF unchanged_steady r1 m]
  obtain r2 where
    "updateSaves steady_env (\<lambda>t. dispatched r1) ''profile1'' ''/saves'' (finished r1) = Inr r2"
    "newSavegames r2 = []"
    by blast
  with r1 n1 show ?thesis
    by (intro exI [of _ r1] exI [of _ r2]) simp
qed


section \<open>Files that belong to a save\<close>

lemma gameSupport_keys:
  "gameMode \<in> set (map fst gameSupport) \<Longrightarrow>
   gameMode = ''skyrim'' \<or> gameMode = ''skyrimse'' \<or> gameMode = ''skyrimvr'' \<or>
   gameMode = ''fallout3'' \<or> gameMode = ''fallout4'' \<or> gameMode = ''fallout4vr'' \<or>
   gameMode = ''falloutnv'' \<or> gameMode = ''oblivion''"
  unfolding gameSupport_def by simp

lemma gameSupported_table:
  "gameSupported ''skyrim''" "gameSupported ''skyrimse''" "gameSupported ''skyrimvr''"
  "gameSupported ''fallout3''" "gameSupported ''fallout4''" "gameSupported ''fallout4vr''"
  "gameSupported ''falloutnv''" "gameSupported ''oblivion''"
  by (simp_all add: gameSupported_def gameSupportAt_def gameSupport_def)

lemma saveFiles_table:
  "saveFiles pm ''skyrim'' p = Inr ([p] @ scriptExtenderFiles pm p ''skse'')"
  "saveFiles pm ''skyrimse'' p = Inr ([p] @ scriptExtenderFiles pm p ''skse'')"
  "saveFiles pm ''skyrimvr'' p = Inr ([p] @ scriptExtenderFiles pm p ''skse'')"
  "saveFiles pm ''fallout3'' p = Inr ([p] @ scriptExtenderFiles pm p ''fose'')"
  "saveFiles pm ''fallout4'' p = Inr ([p] @ scriptExtenderFiles pm p ''f4se'')"
  "saveFiles pm ''fallout4vr'' p = Inr ([p] @ scriptExtenderFiles pm p ''f4se'')"
  "saveFiles pm ''falloutnv'' p = Inr ([p] @ scriptExtenderFiles pm p ''nvse'')"
  "saveFiles pm ''oblivion'' p = Inr ([p] @ scriptExtenderFiles pm p ''obse'')"
  by (simp_all add: saveFiles_def gameSupportAt_def gameSupport_def)

text \<open>
  The lookup \<open>gameSupport[gameMode]\<close> also answers for property names inherited from
  \<open>Object.prototype\<close>, which are no games: \<open>gameSupported\<close> holds of them and
  \<open>saveFiles\<close> throws.
\<close>

lemma saveFiles_inherited:
  "gameSupported ''constructor''" "saveFiles pm ''constructor'' p = Inl typeError"
  by (simp_all add: gameSupported_def saveFiles_def gameSupportAt_def gameSupport_def
      objectPrototypeKeys_def)

text \<open>
  C10. A supported game is a key of the table \<open>gameSupport\<close>. For every such game
  (\<open>gameSupported\<close> holds of each) and every input path, \<open>saveFiles\<close> returns
  exactly two entries: the input itself, then \<open>path.basename\<close> of the input with the
  input's \<open>path.extname\<close> cut off, followed by a dot and the game's script-extender
  extension: \<open>skse\<close> for the three Skyrim entries, \<open>fose\<close>, \<open>f4se\<close> (twice),
  \<open>nvse\<close> and \<open>obse\<close> for the others.
\<close>

theorem saveFiles_supported:
  "gameMode \<in> set (map fst gameSupport) \<Longrightarrow>
   gameSupported gameMode \<and>
   (\<exists>seext.
      (gameMode, seext) \<in> set [(''skyrim'', ''skse''), (''skyrimse'', ''skse''),
         (''skyrimvr'', ''skse''), (''fallout3'', ''fose''), (''fallout4'', ''f4se''),
         (''fallout4vr'', ''f4se''), (''falloutnv'', ''nvse''), (''oblivion'', ''obse'')] \<and>
      saveFiles pm gameMode savePath =
        Inr [savePath,
             path_basename pm savePath (Some (path_extname pm savePath)) @ ''.'' @ seext])"
proof -
  assume "gameMode \<in> set (map fst gameSupport)"
  then have d: "gameMode = ''skyrim'' \<or> gameMode = ''skyrimse'' \<or> gameMode = ''skyrimvr'' \<or>
      gameMode = ''fallout3'' \<or> gameMode = ''fallout4'' \<or> gameMode = ''fallout4vr'' \<or>
      gameMode = ''falloutnv'' \<or> gameMode = ''oblivion''"
    by (rule gameSupport_keys)
  let ?stem = "path_basename pm savePath (Some (path_extname pm savePath))"
  let ?table = "[(''skyrim'', ''skse''), (''skyrimse'', ''skse''),
         (''skyrimvr'', ''skse''), (''fallout3'', ''fose''), (''fallout4'', ''f4se''),
         (''fallout4vr'', ''f4se''), (''falloutnv'', ''nvse''), (''oblivion'', ''obse'')]"
  have r: "gameSupported gameMode \<and>
      (\<exists>seext. (gameMode, seext) \<in> set ?table \<and>
         saveFiles pm gameMode savePath = Inr [savePath, ?stem @ ''.'' @ seext])"
    if "gameMode = g" and "(g, x) \<in> set ?table" and "gameSupported g"
      and "saveFiles pm g savePath = Inr ([savePath] @ scriptExtenderFiles pm savePath x)"
    for g x
    using that by (intro conjI exI [of _ x]) (simp_all add: scriptExtenderFiles_def)
  from d show ?thesis
  proof (elim disjE)
    assume "gameMode = ''skyrim''"
    then show ?thesis by (rule r [of _ "''skse''"]) (simp_all add: saveFiles_table gameSupported_table)
  next
    assume "gameMode = ''skyrimse''"
    then show ?thesis by (rule r [of _ "''skse''"]) (simp_all add: saveFiles_table gameSupported_table)
  next
    assume "gameMode = ''skyrimvr''"
    then show ?thesis by (rule r [of _ "''skse''"]) (simp_all add: saveFiles_table gameSupported_table)
  next
    assume "gameMode = ''fallout3''"
    then show ?thesis by (rule r [of _ "''fose''"]) (simp_all add: saveFiles_table gameSupported_table)
  next
    assume "gameMode = ''fallout4''"
    then show ?thesis by (rule r [of _ "''f4se''"]) (simp_all add: saveFiles_table gameSupported_table)
  next
    assume "gameMode = ''fallout4vr''"
    then show ?thesis by (rule r [of _ "''f4se''"]) (simp_all add: saveFiles_table gameSupported_table)
  next
    assume "gameMode = ''falloutnv''"
    then show ?thesis by (rule r [of _ "''nvse''"]) (simp_all add: saveFiles_table gameSupported_table)
  next
    assume "gameMode = ''oblivion''"
    then show ?thesis by (rule r [of _ "''obse''"]) (simp_all add: saveFiles_table gameSupported_table)
  qed
qed

lemma gameSupport_sample:
  "''skyrim'' \<in> set (map fst gameSupport)" "''fallout4vr'' \<in> set (map fst gameSupport)"
  by (simp_all add: gameSupport_def)

lemma posix_stems:
  "path_basename posix ''/saves/Save 1.ess'' (Some (path_extname posix ''/saves/Save 1.ess'')) = ''Save 1''"
  "path_basename posix ''quick.FOS'' (Some (path_extname posix ''quick.FOS'')) = ''quick''"
  by (simp_all add: posix_def posix_basename_def posix_extname_def last_component_def)

theorem saveFiles_supported_witness:
  "saveFiles posix ''skyrim'' ''/saves/Save 1.ess'' = Inr [''/saves/Save 1.ess'', ''Save 1.skse''] \<and>
   saveFiles posix ''fallout4vr'' ''quick.FOS'' = Inr [''quick.FOS'', ''quick.f4se'']"
proof -
  from saveFiles_supported [OF gameSupport_sample(1), of posix "''/saves/Save 1.ess''"]
  have a: "saveFiles posix ''skyrim'' ''/saves/Save 1.ess'' = Inr [''/saves/Save 1.ess'', ''Save 1.skse'']"
    by (auto simp add: posix_stems)
  from saveFiles_supported [OF gameSupport_sample(2), of posix "''quick.FOS''"]
  have b: "saveFiles posix ''fallout4vr'' ''quick.FOS'' = Inr [''quick.FOS'', ''quick.f4se'']"
    by (auto simp add: posix_stems)
  from a b show ?thesis by (rule conjI)
qed

section \<open>A profile that does not exist\<close>

lemma sample_ghost: "getProfile sample_host (store sample_world) ''ghost'' = None"
  by (simp add: sample_host_def sample_world_def)

lemma sample_settings:
  "fst (updateSaveSettings sample_host ''p1'' sample_world) =
     Inr (Some ''/home/user/Documents/My Games/skyrim/Saves/p1/'') \<and>
   length (effects (snd (updateSaveSettings sample_host ''p1'' sample_world))) = 5"
  by (simp add: updateSaveSettings_def sample_host_def sample_world_def iniPath_def mygamesPath_def
      gameSupportAt_def gameSupport_def gameSupported_def path_sample_envs posix_def
      posix_join_def posix_normalize_def do_dispatch_def Let_def)

text \<open>
  C7. When the store holds no profile under the id, the handler of
  \<open>profile-did-change\<close> leaves the world exactly as it was: no configuration file is
  read or written, nothing is dispatched, the store is the same, no notification is shown,
  no watch is touched. \<open>updateSaveSettings\<close> on its own rejects with
  \<open>ProcessCanceled('no current profile')\<close>, also in an unchanged world.
\<close>

theorem missing_profile_aborts:
  "getProfile h (store w) profileId = None \<Longrightarrow>
   onProfileDidChange h profileId w = w \<and>
   fst (updateSaveSettings h profileId w) = Inl (processCanceled ''no current profile'') \<and>
   snd (updateSaveSettings h profileId w) = w"
  by (simp add: onProfileDidChange_def updateSaveSettings_def)

theorem missing_profile_aborts_witness:
  "onProfileDidChange sample_host ''ghost'' sample_world = sample_world \<and>
   fst (updateSaveSettings sample_host ''ghost'' sample_world) =
     Inl (processCanceled ''no current profile'') \<and>
   snd (updateSaveSettings sample_host ''ghost'' sample_world) = sample_world \<and>
   effects sample_world = [] \<and>
   length (effects (snd (updateSaveSettings sample_host ''p1'' sample_world))) = 5"
  using missing_profile_aborts [OF sample_ghost] sample_settings
  by (simp add: sample_world_def)

section \<open>At most one live watch\<close>

lemma same_watches_inv: "same_watches w w' \<Longrightarrow> watch_inv w \<Longrightarrow> watch_inv w'"
  by (simp add: same_watches_def watch_inv_def)

lemma same_watches_unhandled: "same_watches w (unhandled err w)"
  by (simp add: same_watches_def unhandled_def)

lemma same_watches_updateSaveSettings: "same_watches w (snd (updateSaveSettings h profileId w))"
proof (cases "getProfile h (store w) profileId")
  case None
  then show ?thesis by (simp add: updateSaveSettings_def same_watches_def)
next
  case (Some pr)
  note pr = Some
  show ?thesis
  proof (cases "iniPath (path (fsenv h)) (documents h) (gameId pr)")
    case (Inl err)
    with pr show ?thesis by (simp add: updateSaveSettings_def same_watches_def)
  next
    case (Inr ini)
    note ini = Inr
    show ?thesis
    proof (cases "parser_read h (now w) ini")
      case (Inl err)
      with pr ini show ?thesis by (simp add: updateSaveSettings_def same_watches_def)
    next
      case (Inr data)
      note data = Inr
      show ?thesis
      proof (cases "gameSupported (gameId pr)")
        case False
        with pr ini data show ?thesis
          by (simp add: updateSaveSettings_def same_watches_def do_dispatch_def Let_def)
      next
        case True
        show ?thesis
        proof (cases "mygamesPath (path (fsenv h)) (documents h) (gameId pr)")
          case (Inl err)
          with pr ini data True show ?thesis
            by (simp add: updateSaveSettings_def same_watches_def do_dispatch_def Let_def)
        next
          case (Inr dir)
          with pr ini data True show ?thesis
            by (simp add: updateSaveSettings_def same_watches_def do_dispatch_def Let_def
                split: option.splits)
        qed
      qed
    qed
  qed
qed

lemma same_watches_updateSavesIn: "same_watches w (snd (updateSavesIn h profileId savesPath w))"
  by (simp add: updateSavesIn_def same_watches_def do_dispatch_def Let_def
      split: option.splits sum.splits)

lemma same_watches_rescanAction: "same_watches w (rescanAction h a w)"
proof -
  obtain r w1 where u: "updateSavesIn h (r_profileId a) (r_savesPath a) w = (r, w1)"
    by (cases "updateSavesIn h (r_profileId a) (r_savesPath a) w")
  have "same_watches w w1"
    using same_watches_updateSavesIn [of w h "r_profileId a" "r_savesPath a"] u by simp
  then show ?thesis
    using u by (simp add: rescanAction_def same_watches_def split: sum.splits)
qed

lemma same_watches_timerFires: "same_watches w (timerFires h k t w)"
proof -
  have "same_watches w (rescanAction h a (w\<lparr>timers := tm\<rparr>))" for a tm
    using same_watches_rescanAction [of "w\<lparr>timers := tm\<rparr>" h a]
    by (simp add: same_watches_def)
  then show ?thesis
    by (simp add: timerFires_def same_watches_def split: option.splits)
qed

lemma same_watches_fsChange: "same_watches w (fsChange dir evt filename t w)"
  by (simp add: fsChange_def same_watches_def)

lemma live_closeWatcher: "watch_inv w \<Longrightarrow> live (closeWatcher w) = []"
proof (cases "fsWatcher w")
  case None
  assume "watch_inv w"
  with None have "live w = []"
    by (cases "live w") (auto simp: watch_inv_def)
  with None show ?thesis by (simp add: closeWatcher_def)
next
  case (Some k)
  assume "watch_inv w"
  with Some have "\<forall>wd \<in> set (live w). fst wd = k"
    by (auto simp: watch_inv_def)
  then have "filter (\<lambda>wd. fst wd \<noteq> k) (live w) = []"
    by (simp add: filter_empty_conv)
  with Some show ?thesis by (simp add: closeWatcher_def)
qed

lemma closeWatcher_fields:
  "fsWatcher (closeWatcher w) = fsWatcher w" "next_handle (closeWatcher w) = next_handle w"
  "timers (closeWatcher w) = timers w" "store (closeWatcher w) = store w"
  "now (closeWatcher w) = now w"
  by (simp_all add: closeWatcher_def split: option.splits)

lemma effects_closeWatcher:
  "effects (closeWatcher w) =
     effects w @ (case fsWatcher w of None \<Rightarrow> [] | Some k \<Rightarrow> [WatchClose k])"
  by (simp add: closeWatcher_def split: option.splits)

lemma attachWatch_opened:
  "watch_inv w \<Longrightarrow> watch h (now w) savesPath = None \<Longrightarrow>
   live (attachWatch h profileId savesPath w) = [(next_handle w, savesPath)] \<and>
   fsWatcher (attachWatch h profileId savesPath w) = Some (next_handle w) \<and>
   next_handle (attachWatch h profileId savesPath w) = Suc (next_handle w) \<and>
   timers (attachWatch h profileId savesPath w) (next_handle w) =
     Some (update profileId savesPath)"
  by (simp add: attachWatch_def Let_def closeWatcher_fields live_closeWatcher)

lemma attachWatch_failed:
  "watch_inv w \<Longrightarrow> watch h (now w) savesPath = Some err \<Longrightarrow>
   live (attachWatch h profileId savesPath w) = [] \<and>
   fsWatcher (attachWatch h profileId savesPath w) = fsWatcher w \<and>
   next_handle (attachWatch h profileId savesPath w) = next_handle w"
  by (simp add: attachWatch_def Let_def closeWatcher_fields live_closeWatcher)

lemma watch_inv_attachWatch: "watch_inv w \<Longrightarrow> watch_inv (attachWatch h profileId savesPath w)"
proof (cases "watch h (now w) savesPath")
  case None
  assume "watch_inv w"
  from attachWatch_opened [OF this None] show ?thesis by (simp add: watch_inv_def)
next
  case (Some err)
  assume "watch_inv w"
  from attachWatch_failed [OF this Some] show ?thesis by (simp add: watch_inv_def)
qed

lemma watch_inv_updateSaveSettings:
  "watch_inv w \<Longrightarrow> updateSaveSettings h profileId w = (a, w1) \<Longrightarrow> watch_inv w1"
  using same_watches_inv [OF same_watches_updateSaveSettings, of w h profileId] by simp

lemma watch_inv_updateSavesIn:
  "watch_inv w \<Longrightarrow> updateSavesIn h profileId savesPath w = (b, w2) \<Longrightarrow> watch_inv w2"
  using same_watches_inv [OF same_watches_updateSavesIn, of w h profileId savesPath] by simp

lemma watch_inv_unhandled: "watch_inv w \<Longrightarrow> watch_inv (unhandled err w)"
  using same_watches_inv [OF same_watches_unhandled] by blast

lemma watch_inv_effects: "watch_inv w \<Longrightarrow> watch_inv (w\<lparr>effects := ev\<rparr>)"
  by (simp add: watch_inv_def)

lemma watch_inv_onProfileDidChange:
  assumes "watch_inv w"
  shows "watch_inv (onProfileDidChange h profileId w)"
proof (cases "getProfile h (store w) profileId")
  case None
  then show ?thesis using assms by (simp add: onProfileDidChange_def)
next
  case (Some pr)
  show ?thesis
  proof (cases "gameSupported (gameId pr)")
    case False
    then show ?thesis using assms Some by (simp add: onProfileDidChange_def)
  next
    case True
    obtain a w1 where r: "updateSaveSettings h profileId w = (a, w1)"
      by (cases "updateSaveSettings h profileId w")
    have i1: "watch_inv w1"
      using assms r by (rule watch_inv_updateSaveSettings)
    show ?thesis
    proof (cases a)
      case (Inl err)
      then show ?thesis
        using Some True r watch_inv_unhandled [OF i1] by (simp add: onProfileDidChange_def)
    next
      case (Inr sp)
      note a = Inr
      show ?thesis
      proof (cases sp)
        case None
        then show ?thesis
          using Some True r a watch_inv_unhandled [OF i1] by (simp add: onProfileDidChange_def)
      next
        case p: (Some p)
        obtain b w2 where u: "updateSavesIn h profileId p w1 = (b, w2)"
          by (cases "updateSavesIn h profileId p w1")
        have i2: "watch_inv w2"
          using i1 u by (rule watch_inv_updateSavesIn)
        show ?thesis
        proof (cases b)
          case (Inl err)
          then show ?thesis
            using Some True r a p u watch_inv_unhandled [OF i2]
            by (simp add: onProfileDidChange_def)
        next
          case (Inr fr)
          have "watch_inv (attachWatch h profileId p (if fr \<noteq> [] then w2\<lparr>effects := effects w2 @
              [ShowErrorNotification ''Some saves couldn't be read'' (joinLines fr)]\<rparr> else w2))"
            using i2 by (intro watch_inv_attachWatch) (simp add: watch_inv_effects)
          then show ?thesis
            using Some True r a p u Inr by (simp add: onProfileDidChange_def)
        qed
      qed
    qed
  qed
qed

lemma reachable_watch_inv: "reachable w \<Longrightarrow> watch_inv w"
proof (induction rule: reachable.induct)
  case (start w)
  then show ?case by (simp add: watch_inv_def)
next
  case (profile w h profileId)
  then show ?case by (simp add: watch_inv_onProfileDidChange)
next
  case (attach w h profileId savesPath)
  then show ?case by (simp add: watch_inv_attachWatch)
next
  case (change w dir evt filename t)
  then show ?case using same_watches_inv [OF same_watches_fsChange] by blast
next
  case (timer w h k t)
  then show ?case using same_watches_inv [OF same_watches_timerFires] by blast
next
  case (other w w')
  then show ?case by (simp add: watch_inv_def)
qed

lemma watch_inv_at_most_one: "watch_inv w \<Longrightarrow> length (live w) \<le> 1"
proof -
  assume i: "watch_inv w"
  show ?thesis
  proof (cases "live w")
    case Nil
    then show ?thesis by simp
  next
    case (Cons a as)
    show ?thesis
    proof (cases as)
      case Nil
      with Cons show ?thesis by simp
    next
      case (Cons b bs)
      with \<open>live w = a # as\<close> i have "fst a = fst b" and "fst a \<noteq> fst b"
        by (auto simp: watch_inv_def) (metis option.inject prod.collapse)+
      then show ?thesis by simp
    qed
  qed
qed

lemma fsChange_elsewhere:
  "\<forall>k. (k, dir) \<notin> set (live w) \<Longrightarrow> fsChange dir evt filename t w = w"
  by (simp add: fsChange_def)

lemma sample_reachable: "reachable sample_world"
  by (rule reachable.start) (simp_all add: sample_world_def)

lemma sample_watch: "watch sample_host t ''/a'' = None" "watch sample_host t ''/b'' = None"
  by (simp_all add: sample_host_def)

text \<open>
  C8. In every reachable world at most one watch is open. When the last step of a handler
  runs, no watch is open once the old watcher is closed, so at most one is open after the
  step; and when \<open>fs.watch\<close> succeeds the one open watch is the new one, on the new
  directory, under a handle no earlier watch had: a change in any other directory runs no
  callback at all and leaves the world as it is.
\<close>

theorem one_live_watch:
  "reachable w \<Longrightarrow>
   length (live w) \<le> 1 \<and>
   live (closeWatcher w) = [] \<and>
   length (live (attachWatch h profileId savesPath w)) \<le> 1 \<and>
   (watch h (now w) savesPath = None \<longrightarrow>
      live (attachWatch h profileId savesPath w) = [(next_handle w, savesPath)] \<and>
      fsWatcher (attachWatch h profileId savesPath w) = Some (next_handle w) \<and>
      next_handle w \<notin> fst ` set (live w) \<and>
      effects (attachWatch h profileId savesPath w) =
        effects w @ (case fsWatcher w of None \<Rightarrow> [] | Some k \<Rightarrow> [WatchClose k]) @
        [Watch savesPath] \<and>
      (\<forall>dir evt filename t. dir \<noteq> savesPath \<longrightarrow>
         fsChange dir evt filename t (attachWatch h profileId savesPath w) =
           attachWatch h profileId savesPath w))"
proof -
  assume "reachable w"
  then have i: "watch_inv w" by (rule reachable_watch_inv)
  have a: "length (live w) \<le> 1" using i by (rule watch_inv_at_most_one)
  have b: "live (closeWatcher w) = []" using i by (rule live_closeWatcher)
  have c: "length (live (attachWatch h profileId savesPath w)) \<le> 1"
    using watch_inv_attachWatch [OF i] by (rule watch_inv_at_most_one)
  have d: "live (attachWatch h profileId savesPath w) = [(next_handle w, savesPath)] \<and>
      fsWatcher (attachWatch h profileId savesPath w) = Some (next_handle w) \<and>
      next_handle w \<notin> fst ` set (live w) \<and>
      effects (attachWatch h profileId savesPath w) =
        effects w @ (case fsWatcher w of None \<Rightarrow> [] | Some k \<Rightarrow> [WatchClose k]) @
        [Watch savesPath] \<and>
      (\<forall>dir evt filename t. dir \<noteq> savesPath \<longrightarrow>
         fsChange dir evt filename t (attachWatch h profileId savesPath w) =
           attachWatch h profileId savesPath w)"
    if ok: "watch h (now w) savesPath = None"
  proof -
    note o = attachWatch_opened [OF i ok]
    have fresh: "next_handle w \<notin> fst ` set (live w)"
      using i by (fastforce simp: watch_inv_def)
    have order: "effects (attachWatch h profileId savesPath w) =
        effects w @ (case fsWatcher w of None \<Rightarrow> [] | Some k \<Rightarrow> [WatchClose k]) @
        [Watch savesPath]"
      using ok by (simp add: attachWatch_def Let_def closeWatcher_fields effects_closeWatcher)
    have "fsChange dir evt filename t (attachWatch h profileId savesPath w) =
           attachWatch h profileId savesPath w"
      if "dir \<noteq> savesPath" for dir evt filename t
      using o that by (intro fsChange_elsewhere) simp
    with o fresh order show ?thesis by simp
  qed
  from a b c d show ?thesis by blast
qed

theorem one_live_watch_witness:
  "live (attachWatch sample_host ''p1'' ''/a'' sample_world) = [(0, ''/a'')] \<and>
   live (attachWatch sample_host ''p1'' ''/b'' (attachWatch sample_host ''p1'' ''/a'' sample_world)) =
     [(1, ''/b'')] \<and>
   fsWatcher (attachWatch sample_host ''p1'' ''/b'' (attachWatch sample_host ''p1'' ''/a'' sample_world)) =
     Some 1 \<and>
   effects (attachWatch sample_host ''p1'' ''/b'' (attachWatch sample_host ''p1'' ''/a'' sample_world)) =
     [Watch ''/a'', WatchClose 0, Watch ''/b''] \<and>
   fsChange ''/a'' ''change'' ''save1.ess'' 1000
       (attachWatch sample_host ''p1'' ''/b'' (attachWatch sample_host ''p1'' ''/a'' sample_world)) =
     attachWatch sample_host ''p1'' ''/b'' (attachWatch sample_host ''p1'' ''/a'' sample_world)"
proof -
  let ?w1 = "attachWatch sample_host ''p1'' ''/a'' sample_world"
  have n0: "next_handle sample_world = 0" by (simp add: sample_world_def)
  note a = one_live_watch [OF sample_reachable, where h = sample_host and savesPath = "''/a''"
      and profileId = "''p1''"]
  have r1: "reachable ?w1" using sample_reachable by (rule reachable.attach)
  have n1: "next_handle ?w1 = 1"
    using attachWatch_opened [OF reachable_watch_inv [OF sample_reachable] sample_watch(1)]
    by (simp add: n0)
  note b = one_live_watch [OF r1, where h = sample_host and savesPath = "''/b''"
      and profileId = "''p1''"]
  have ne: "''/a'' \<noteq> ''/b''" by simp
  have e0: "effects sample_world = []" "fsWatcher sample_world = None"
    by (simp_all add: sample_world_def)
  from a b show ?thesis
    using sample_watch n0 n1 ne e0 by simp
qed

section \<open>Debounced changes\<close>














end
